theory Spec2Isabelle
  imports
    Main
    "HOL-Library.Sublist"
    "HOL-Library.Char_ord"
    "HOL-Library.List_Lexorder"
    "HOL-Library.Multiset"
begin

section \<open>Release progress tracker: state derivation, milestones, warnings\<close>

text \<open>
  A shallow embedding of the pure core of the release progress tracker
  (\<^verbatim>\<open>state_deriver.py\<close>, \<^verbatim>\<open>milestone_deriver.py\<close>, \<^verbatim>\<open>warnings.py\<close>, \<^verbatim>\<open>models.py\<close>).

  Conventions of the embedding:
  \<^item> a Python \<^verbatim>\<open>str\<close> is a \<open>string\<close>; an \<^verbatim>\<open>Optional[str]\<close> is a \<open>string option\<close>;
  \<^item> the truth value Python gives an \<^verbatim>\<open>Optional[str]\<close> in \<^verbatim>\<open>if x\<close> / \<^verbatim>\<open>if not x\<close> is \<open>truthy\<close>:
    both \<^verbatim>\<open>None\<close> and the empty string are false;
  \<^item> \<^verbatim>\<open>s.startswith(p)\<close> is \<open>prefix p s\<close> and \<^verbatim>\<open>t in s\<close> on strings is \<open>sublist t s\<close>;
    strings are ordered lexicographically by character, as Python orders them (a \<open>string\<close>
    here holds the bytes of the UTF-8 encoding, which keeps prefixes, substrings and the
    order of the code points);
  \<^item> a dictionary read with \<^verbatim>\<open>d.get(k)\<close> only is a record whose field is an option
    (\<open>None\<close> for a missing key and for a null value, which \<^verbatim>\<open>get\<close> does not tell apart);
    where the source reads \<^verbatim>\<open>d.get(k, default)\<close> and goes on to use the value in a way that
    tells a missing key from a null, the field has the three-valued type \<open>field\<close>.
\<close>

subsection \<open>Python values\<close>

fun truthy :: "string option \<Rightarrow> bool" where
  "truthy None = False"
| "truthy (Some s) = (s \<noteq> [])"

datatype 'a field = Absent | Null | Val 'a

text \<open>\<^verbatim>\<open>d.get(k)\<close>: a missing key and a null value both read as \<^verbatim>\<open>None\<close>.\<close>

fun get :: "'a field \<Rightarrow> 'a option" where
  "get Absent = None"
| "get Null = None"
| "get (Val v) = Some v"

text \<open>\<^verbatim>\<open>d.get(k, default)\<close>: only a missing key reads as the default.\<close>

fun get_default :: "'a field \<Rightarrow> 'a \<Rightarrow> 'a option" where
  "get_default Absent d = Some d"
| "get_default Null d = None"
| "get_default (Val v) d = Some v"

text \<open>\<^verbatim>\<open>d.get(k, "") or ""\<close> on a field read as an option.\<close>

fun or_empty :: "string option \<Rightarrow> string" where
  "or_empty None = []"
| "or_empty (Some s) = s"

datatype error = TypeError | IndexError

subsection \<open>models.py: ProgressState\<close>

datatype ProgressState = NOT_PLANNED | PLANNED | SNAPSHOT_ACTIVE | DRAFT_READY | PUBLISHED

subsection \<open>state_deriver.py\<close>

text \<open>A draft release as the hosting platform lists it: the keys \<^verbatim>\<open>name\<close> and \<^verbatim>\<open>tag_name\<close>.\<close>

record draft_release_dict =
  draft_name :: "string option"
  draft_tag_name :: "string option"

definition snapshot_prefix :: "string \<Rightarrow> string" where
  "snapshot_prefix target_tag = ''release-snapshot/'' @ target_tag @ ''-''"

definition find_matching_snapshot :: "string list \<Rightarrow> string option \<Rightarrow> string option" where
  "find_matching_snapshot branches target_tag =
     (case target_tag of
        None \<Rightarrow> None
      | Some t \<Rightarrow>
          if t = [] then None
          else List.find (\<lambda>branch. prefix (snapshot_prefix t) branch) branches)"

definition has_matching_draft :: "draft_release_dict list \<Rightarrow> string option \<Rightarrow> bool" where
  "has_matching_draft draft_releases target_tag =
     (case target_tag of
        None \<Rightarrow> False
      | Some t \<Rightarrow>
          if t = [] \<or> draft_releases = [] then False
          else list_ex (\<lambda>release.
                 sublist t (or_empty (draft_name release)) \<or>
                 sublist t (or_empty (draft_tag_name release))) draft_releases)"

definition derive_state ::
  "string option \<Rightarrow> string option \<Rightarrow> bool \<Rightarrow> string list \<Rightarrow> draft_release_dict list \<Rightarrow> ProgressState"
where
  "derive_state target_release_type target_release_tag tag_exists snapshot_branches draft_releases =
     (if \<not> truthy target_release_type \<or> target_release_type = Some ''none'' then NOT_PLANNED
      else if tag_exists then PUBLISHED
      else if truthy (find_matching_snapshot snapshot_branches target_release_tag) then
        (if has_matching_draft draft_releases target_release_tag then DRAFT_READY
         else SNAPSHOT_ACTIVE)
      else PLANNED)"

subsection \<open>models.py: the dataclasses\<close>

text \<open>
  A value of the serialised report: what \<^verbatim>\<open>to_dict\<close> builds and the YAML writer receives.
  A Python dictionary keeps its keys in insertion order, so it is an association list;
  every \<^verbatim>\<open>to_dict\<close> below writes each key once.
\<close>

datatype pyval =
  PNone | PStr string | PInt int | PList "pyval list" | PDict "(string \<times> pyval) list"

type_synonym pydict = "(string \<times> pyval) list"

fun opt_str :: "string option \<Rightarrow> pyval" where
  "opt_str None = PNone"
| "opt_str (Some s) = PStr s"

fun opt_dict :: "pydict option \<Rightarrow> pyval" where
  "opt_dict None = PNone"
| "opt_dict (Some d) = PDict d"

text \<open>The keys of a dictionary, and \<^verbatim>\<open>k in d\<close>.\<close>

definition keys :: "pydict \<Rightarrow> string list" where
  "keys d = map fst d"

definition has_key :: "pydict \<Rightarrow> string \<Rightarrow> bool" where
  "has_key d k = (k \<in> set (keys d))"

fun state_value :: "ProgressState \<Rightarrow> string" where
  "state_value NOT_PLANNED = ''not_planned''"
| "state_value PLANNED = ''planned''"
| "state_value SNAPSHOT_ACTIVE = ''snapshot_active''"
| "state_value DRAFT_READY = ''draft_ready''"
| "state_value PUBLISHED = ''published''"

record ProgressWarning =
  code :: string
  message :: string
  severity :: string

definition ProgressWarning_to_dict :: "ProgressWarning \<Rightarrow> pydict" where
  "ProgressWarning_to_dict w =
     [(''code'', PStr (code w)), (''message'', PStr (message w)), (''severity'', PStr (severity w))]"

record ApiEntry =
  api_name :: string
  target_api_version :: string
  target_api_status :: string
  main_contacts :: "string list"

definition ApiEntry_to_dict :: "ApiEntry \<Rightarrow> pydict" where
  "ApiEntry_to_dict a =
     [(''api_name'', PStr (api_name a)),
      (''target_api_version'', PStr (target_api_version a)),
      (''target_api_status'', PStr (target_api_status a))]
     @ (if main_contacts a \<noteq> [] then [(''main_contacts'', PList (map PStr (main_contacts a)))]
        else [])"

record ArtifactInfo =
  snapshot_branch :: "string option"
  release_pr :: "pydict option"
  draft_release :: "pydict option"
  release_issue :: "pydict option"

definition ArtifactInfo_to_dict :: "ArtifactInfo \<Rightarrow> pydict" where
  "ArtifactInfo_to_dict a =
     [(''snapshot_branch'', opt_str (snapshot_branch a)),
      (''release_pr'', opt_dict (release_pr a)),
      (''draft_release'', opt_dict (draft_release a)),
      (''release_issue'', opt_dict (release_issue a))]"

record CycleReleaseApi =
  cra_api_name :: string
  cra_api_version :: "string option"

definition CycleReleaseApi_to_dict :: "CycleReleaseApi \<Rightarrow> pydict" where
  "CycleReleaseApi_to_dict a =
     [(''api_name'', PStr (cra_api_name a)), (''api_version'', opt_str (cra_api_version a))]"

text \<open>The field \<^verbatim>\<open>apis\<close> of a milestone release is \<open>milestone_apis\<close> here.\<close>

record MilestoneRelease =
  release_tag :: "string option"
  release_date :: "string option"
  milestone_apis :: "CycleReleaseApi list"

definition MilestoneRelease_to_dict :: "MilestoneRelease \<Rightarrow> pydict" where
  "MilestoneRelease_to_dict m =
     [(''release_tag'', opt_str (release_tag m)),
      (''release_date'', opt_str (release_date m)),
      (''apis'', PList (map (\<lambda>a. PDict (CycleReleaseApi_to_dict a)) (milestone_apis m)))]"

record CycleReleases =
  m1 :: "MilestoneRelease option"
  m3 :: "MilestoneRelease option"
  m4 :: "MilestoneRelease option"

text \<open>\<^verbatim>\<open>CycleReleases()\<close>: the three defaults.\<close>

definition CycleReleases_default :: CycleReleases where
  "CycleReleases_default = \<lparr>m1 = None, m3 = None, m4 = None\<rparr>"

text \<open>
  A dataclass instance is always true in a condition (it defines neither \<^verbatim>\<open>__bool__\<close> nor
  \<^verbatim>\<open>__len__\<close>), so \<^verbatim>\<open>if self.m1\<close> asks whether the milestone is not \<^verbatim>\<open>None\<close>.
\<close>

fun milestone_item :: "string \<Rightarrow> MilestoneRelease option \<Rightarrow> pydict" where
  "milestone_item k None = []"
| "milestone_item k (Some m) = [(k, PDict (MilestoneRelease_to_dict m))]"

definition CycleReleases_to_dict :: "CycleReleases \<Rightarrow> pydict" where
  "CycleReleases_to_dict c =
     (if m1 c = None \<and> m3 c = None \<and> m4 c = None then []
      else milestone_item ''m1'' (m1 c) @ milestone_item ''m3'' (m3 c) @ milestone_item ''m4'' (m4 c))"

record PublishedContext =
  latest_public_release :: "string option"
  newest_pre_release :: "string option"

definition PublishedContext_to_dict :: "PublishedContext \<Rightarrow> pydict" where
  "PublishedContext_to_dict c =
     [(''latest_public_release'', opt_str (latest_public_release c)),
      (''newest_pre_release'', opt_str (newest_pre_release c))]"

record ProgressEntry =
  repository :: string
  github_url :: string
  release_track :: "string option"
  meta_release :: "string option"
  target_release_tag :: "string option"
  target_release_type :: "string option"
  dependencies :: "pydict option"
  apis :: "ApiEntry list"
  state :: ProgressState
  artifacts :: ArtifactInfo
  published_context :: PublishedContext
  cycle_releases :: CycleReleases
  warnings :: "ProgressWarning list"

text \<open>\<^verbatim>\<open>if self.dependencies\<close>: a dictionary is true when it is not \<^verbatim>\<open>None\<close> and not empty.\<close>

fun dict_item_if_truthy :: "string \<Rightarrow> pydict option \<Rightarrow> pydict" where
  "dict_item_if_truthy k None = []"
| "dict_item_if_truthy k (Some d) = (if d = [] then [] else [(k, PDict d)])"

fun str_item_if_truthy :: "string \<Rightarrow> string option \<Rightarrow> pydict" where
  "str_item_if_truthy k None = []"
| "str_item_if_truthy k (Some s) = (if s = [] then [] else [(k, PStr s)])"

definition ProgressEntry_to_dict :: "ProgressEntry \<Rightarrow> pydict" where
  "ProgressEntry_to_dict e =
     [(''repository'', PStr (repository e)), (''github_url'', PStr (github_url e))]
     @ str_item_if_truthy ''release_track'' (release_track e)
     @ str_item_if_truthy ''meta_release'' (meta_release e)
     @ [(''target_release_tag'', opt_str (target_release_tag e)),
        (''target_release_type'', opt_str (target_release_type e))]
     @ dict_item_if_truthy ''dependencies'' (dependencies e)
     @ [(''apis'', PList (map (\<lambda>a. PDict (ApiEntry_to_dict a)) (apis e))),
        (''state'', PStr (state_value (state e))),
        (''artifacts'', PDict (ArtifactInfo_to_dict (artifacts e))),
        (''published_context'', PDict (PublishedContext_to_dict (published_context e))),
        (''cycle_releases'', PDict (CycleReleases_to_dict (cycle_releases e)))]
     @ (if warnings e \<noteq> []
        then [(''warnings'', PList (map (\<lambda>w. PDict (ProgressWarning_to_dict w)) (warnings e)))]
        else [])"

subsection \<open>The release ledger\<close>

text \<open>
  A release of the ledger (\<^verbatim>\<open>releases-master.yaml\<close>) is a dictionary with the keys
  \<^verbatim>\<open>repository\<close>, \<^verbatim>\<open>meta_release\<close>, \<^verbatim>\<open>release_type\<close>, \<^verbatim>\<open>release_tag\<close>, \<^verbatim>\<open>release_date\<close> and
  \<^verbatim>\<open>apis\<close>; each API in it has the keys \<^verbatim>\<open>api_name\<close> and \<^verbatim>\<open>api_version\<close>. Every value is a
  string (a list of API dictionaries for \<^verbatim>\<open>apis\<close>), or null, or the key is missing. The
  source reads \<^verbatim>\<open>release_date\<close> and \<^verbatim>\<open>apis\<close> with a default, which a null value does not
  take, so these two are three-valued.
\<close>

record release_api_dict =
  ra_api_name :: "string option"
  ra_api_version :: "string option"

record release_dict =
  rel_repository :: "string option"
  rel_meta_release :: "string option"
  rel_release_type :: "string option"
  rel_release_tag :: "string option"
  rel_release_date :: "string field"
  rel_apis :: "release_api_dict list field"

subsection \<open>milestone_deriver.py\<close>

definition empty_milestone :: "string list \<Rightarrow> MilestoneRelease" where
  "empty_milestone planned_apis =
     \<lparr>release_tag = None, release_date = None,
      milestone_apis = map (\<lambda>n. \<lparr>cra_api_name = n, cra_api_version = None\<rparr>) planned_apis\<rparr>"

text \<open>The sort key \<^verbatim>\<open>r.get("release_date", "")\<close>; \<open>None\<close> is Python's \<^verbatim>\<open>None\<close>.\<close>

definition date_key :: "release_dict \<Rightarrow> string option" where
  "date_key r = get_default (rel_release_date r) []"

text \<open>
  \<^verbatim>\<open>matching.sort(key=...)\<close>: a stable sort, ascending in the keys. Strings compare
  lexicographically by character. Comparing \<^verbatim>\<open>None\<close> with a string or with \<^verbatim>\<open>None\<close> raises
  \<^verbatim>\<open>TypeError\<close>, and with two or more elements every element is compared at least once; a
  list of one element is sorted without any comparison.
\<close>

definition sort_by_release_date :: "release_dict list \<Rightarrow> error + release_dict list" where
  "sort_by_release_date matching =
     (if 2 \<le> length matching \<and> list_ex (\<lambda>r. date_key r = None) matching then Inl TypeError
      else Inr (sort_key (\<lambda>r. or_empty (date_key r)) matching))"

text \<open>
  The loop that fills \<^verbatim>\<open>release_api_versions\<close>: entries without a name, or with an empty
  one, are skipped; a later entry of the same name overwrites an earlier one.
\<close>

definition release_api_versions_step ::
  "release_api_dict \<Rightarrow> (string \<rightharpoonup> string option) \<Rightarrow> (string \<rightharpoonup> string option)" where
  "release_api_versions_step api versions =
     (case ra_api_name api of
        None \<Rightarrow> versions
      | Some name \<Rightarrow> if name = [] then versions else versions(name \<mapsto> ra_api_version api))"

definition release_api_versions :: "release_api_dict list \<Rightarrow> (string \<rightharpoonup> string option)" where
  "release_api_versions release_apis = fold release_api_versions_step release_apis Map.empty"

text \<open>\<^verbatim>\<open>release_api_versions.get(name)\<close>: null for a missing name and for a stored null.\<close>

definition versions_get :: "(string \<rightharpoonup> string option) \<Rightarrow> string \<Rightarrow> string option" where
  "versions_get versions name = (case versions name of None \<Rightarrow> None | Some v \<Rightarrow> v)"

definition find_earliest_by_type ::
  "release_dict list \<Rightarrow> string \<Rightarrow> string list \<Rightarrow> error + MilestoneRelease" where
  "find_earliest_by_type cycle_rels release_type planned_apis =
     (let matching = filter (\<lambda>r. rel_release_type r = Some release_type) cycle_rels in
      if matching = [] then Inr (empty_milestone planned_apis)
      else
        case sort_by_release_date matching of
          Inl e \<Rightarrow> Inl e
        | Inr [] \<Rightarrow> Inl IndexError
        | Inr (earliest # _) \<Rightarrow>
            (case get_default (rel_apis earliest) [] of
               None \<Rightarrow> Inl TypeError
             | Some release_apis \<Rightarrow>
                 Inr \<lparr>release_tag = rel_release_tag earliest,
                      release_date = get (rel_release_date earliest),
                      milestone_apis =
                        map (\<lambda>name. \<lparr>cra_api_name = name,
                                      cra_api_version =
                                        versions_get (release_api_versions release_apis) name\<rparr>)
                            planned_apis\<rparr>))"

definition derive_cycle_releases ::
  "string \<Rightarrow> string option \<Rightarrow> release_dict list \<Rightarrow> string list \<Rightarrow> error + CycleReleases" where
  "derive_cycle_releases repo_name meta_rel all_releases planned_apis =
     (if \<not> truthy meta_rel then Inr CycleReleases_default
      else
        let cycle_rels =
              filter (\<lambda>r. rel_repository r = Some repo_name \<and> rel_meta_release r = meta_rel)
                all_releases
        in
        if cycle_rels = [] then
          Inr \<lparr>m1 = Some (empty_milestone planned_apis),
               m3 = Some (empty_milestone planned_apis),
               m4 = Some (empty_milestone planned_apis)\<rparr>
        else
          case find_earliest_by_type cycle_rels ''pre-release-alpha'' planned_apis of
            Inl e \<Rightarrow> Inl e
          | Inr a \<Rightarrow>
              (case find_earliest_by_type cycle_rels ''pre-release-rc'' planned_apis of
                 Inl e \<Rightarrow> Inl e
               | Inr b \<Rightarrow>
                   (case find_earliest_by_type cycle_rels ''public-release'' planned_apis of
                      Inl e \<Rightarrow> Inl e
                    | Inr c \<Rightarrow> Inr \<lparr>m1 = Some a, m3 = Some b, m4 = Some c\<rparr>)))"

text \<open>The per-cycle counters of \<^verbatim>\<open>build_meta_release_summaries\<close>.\<close>

record summary =
  total_apis :: nat
  m1_achieved :: nat
  m3_achieved :: nat
  m4_achieved :: nat

definition summary_zero :: summary where
  "summary_zero = \<lparr>total_apis = 0, m1_achieved = 0, m3_achieved = 0, m4_achieved = 0\<rparr>"

text \<open>
  What one milestone adds to its counter:
  \<^verbatim>\<open>len([a for a in cr.m1.apis if a.api_version])\<close> when \<^verbatim>\<open>cr.m1 and cr.m1.release_tag\<close>,
  and nothing otherwise.
\<close>

definition achieved_count :: "MilestoneRelease option \<Rightarrow> nat" where
  "achieved_count milestone =
     (case milestone of
        None \<Rightarrow> 0
      | Some m \<Rightarrow>
          if truthy (release_tag m)
          then length (filter (\<lambda>a. truthy (cra_api_version a)) (milestone_apis m))
          else 0)"

text \<open>
  One round of the loop over the entries. The dictionary of summaries is a map: two Python
  dictionaries are equal when they hold the same values under the same keys, in whatever
  order the keys were inserted, and the caller sorts the summaries by name.
\<close>

definition summaries_step ::
  "ProgressEntry \<Rightarrow> (string \<rightharpoonup> summary) \<Rightarrow> (string \<rightharpoonup> summary)" where
  "summaries_step entry summaries =
     (case meta_release entry of
        None \<Rightarrow> summaries
      | Some mr \<Rightarrow>
          if mr = [] then summaries
          else
            let s = (case summaries mr of None \<Rightarrow> summary_zero | Some s \<Rightarrow> s);
                cr = cycle_releases entry
            in summaries(mr \<mapsto>
                 \<lparr>total_apis = total_apis s + length (apis entry),
                  m1_achieved = m1_achieved s + achieved_count (m1 cr),
                  m3_achieved = m3_achieved s + achieved_count (m3 cr),
                  m4_achieved = m4_achieved s + achieved_count (m4 cr)\<rparr>))"

definition build_meta_release_summaries :: "ProgressEntry list \<Rightarrow> (string \<rightharpoonup> summary)" where
  "build_meta_release_summaries progress_entries = fold summaries_step progress_entries Map.empty"

subsection \<open>warnings.py\<close>

text \<open>
  \<^verbatim>\<open>version.split("-")[0] if version else ""\<close> on the value of
  \<^verbatim>\<open>api.get("api_version", "")\<close>: a missing, null or empty version gives the empty string.
\<close>

definition base_version :: "string option \<Rightarrow> string" where
  "base_version version =
     (case version of
        None \<Rightarrow> []
      | Some v \<Rightarrow> if v = [] then [] else takeWhile (\<lambda>c. c \<noteq> CHR ''-'') v)"

definition published_versions_step ::
  "release_api_dict \<Rightarrow> (string \<rightharpoonup> string) \<Rightarrow> (string \<rightharpoonup> string)" where
  "published_versions_step api versions =
     (case ra_api_name api of
        None \<Rightarrow> versions
      | Some name \<Rightarrow>
          if name = [] then versions else versions(name \<mapsto> base_version (ra_api_version api)))"

definition published_versions :: "release_api_dict list \<Rightarrow> (string \<rightharpoonup> string)" where
  "published_versions release_apis = fold published_versions_step release_apis Map.empty"

definition W001 :: "string \<Rightarrow> string \<Rightarrow> string \<Rightarrow> string \<Rightarrow> ProgressWarning" where
  "W001 name target_version tag published_base =
     \<lparr>code = ''W001'',
      message = ''Plan targets '' @ name @ '' '' @ target_version @ '' but '' @ tag
                @ '' published '' @ published_base,
      severity = ''warning''\<rparr>"

text \<open>The loop over \<^verbatim>\<open>entry.apis\<close>: it returns at the first API that diverges.\<close>

fun first_divergence :: "(string \<rightharpoonup> string) \<Rightarrow> string \<Rightarrow> ApiEntry list \<Rightarrow> ProgressWarning list" where
  "first_divergence versions tag [] = []"
| "first_divergence versions tag (api # rest) =
     (case versions (api_name api) of
        None \<Rightarrow> first_divergence versions tag rest
      | Some published_base \<Rightarrow>
          if published_base \<noteq> [] \<and> target_api_version api \<noteq> published_base
          then [W001 (api_name api) (target_api_version api) tag published_base]
          else first_divergence versions tag rest)"

text \<open>
  The release found by the first loop is a dictionary with a \<^verbatim>\<open>release_tag\<close>, so it is
  never empty and \<^verbatim>\<open>if not published\<close> asks whether the loop found one.
\<close>

definition check_published_plan_diverged ::
  "ProgressEntry \<Rightarrow> release_dict list \<Rightarrow> error + ProgressWarning list" where
  "check_published_plan_diverged entry repo_releases =
     (if state entry \<noteq> PUBLISHED then Inr []
      else
        case target_release_tag entry of
          None \<Rightarrow> Inr []
        | Some tag \<Rightarrow>
            if tag = [] \<or> apis entry = [] then Inr []
            else
              (case List.find (\<lambda>rel. rel_release_tag rel = Some tag) repo_releases of
                 None \<Rightarrow> Inr []
               | Some published \<Rightarrow>
                   (case get_default (rel_apis published) [] of
                      None \<Rightarrow> Inl TypeError
                    | Some release_apis \<Rightarrow>
                        Inr (first_divergence (published_versions release_apis) tag
                               (apis entry)))))"

definition W002 :: "string \<Rightarrow> ProgressWarning" where
  "W002 branch =
     \<lparr>code = ''W002'',
      message = ''Snapshot branch '' @ branch @ '' exists but release type is '' @ [CHR 0x27]
                @ ''none'' @ [CHR 0x27],
      severity = ''warning''\<rparr>"

definition check_orphaned_snapshot ::
  "ProgressEntry \<Rightarrow> release_dict list \<Rightarrow> ProgressWarning list" where
  "check_orphaned_snapshot entry repo_releases =
     (if state entry \<noteq> NOT_PLANNED then []
      else
        case snapshot_branch (artifacts entry) of
          None \<Rightarrow> []
        | Some branch \<Rightarrow> if branch = [] then [] else [W002 branch])"

text \<open>\<^verbatim>\<open>generate_warnings\<close> over the registry \<^verbatim>\<open>CHECKS\<close> as the module defines it: W001, then W002.\<close>

definition generate_warnings ::
  "ProgressEntry \<Rightarrow> release_dict list \<Rightarrow> error + ProgressWarning list" where
  "generate_warnings entry repo_releases =
     (case check_published_plan_diverged entry repo_releases of
        Inl e \<Rightarrow> Inl e
      | Inr ws \<Rightarrow> Inr (ws @ check_orphaned_snapshot entry repo_releases))"

subsection \<open>The milestone rule of the specification\<close>

text \<open>
  The specification (section 4.3) describes the milestone of one kind by what it is, not by
  how it is computed. These definitions follow its words, to be compared with
  \<open>find_earliest_by_type\<close>. The date a candidate is ordered by is its \<^verbatim>\<open>release_date\<close>, or
  the empty string when it has none.
\<close>

definition spec_date :: "release_dict \<Rightarrow> string" where
  "spec_date r = or_empty (get (rel_release_date r))"

text \<open>
  ``The version found in the release's own per-API list for a matching API identifier, or
  null if that API is absent from the release'': when the list names the API more than
  once the last entry counts, and an entry without a name, or with an empty one, names
  no API.
\<close>

definition spec_api_version :: "release_dict \<Rightarrow> string \<Rightarrow> string option" where
  "spec_api_version r name =
     (if name = [] then None
      else
        case List.find (\<lambda>a. ra_api_name a = Some name)
               (rev (case rel_apis r of Val release_apis \<Rightarrow> release_apis | _ \<Rightarrow> [])) of
          None \<Rightarrow> None
        | Some a \<Rightarrow> ra_api_version a)"

text \<open>
  The milestone has one entry per planned API, in the order of the plan. Without
  candidates it is unachieved: null tag, null date, every version null. With candidates it
  is taken from the candidate that comes first when they are sorted by date, ties broken by
  input order: no candidate has an earlier date and no candidate before it in the input has
  the same date.
\<close>

definition spec_milestone :: "release_dict list \<Rightarrow> string list \<Rightarrow> MilestoneRelease \<Rightarrow> bool" where
  "spec_milestone candidates planned_apis m \<longleftrightarrow>
     map cra_api_name (milestone_apis m) = planned_apis \<and>
     (if candidates = [] then
        release_tag m = None \<and> release_date m = None \<and>
        (\<forall>a\<in>set (milestone_apis m). cra_api_version a = None)
      else
        (\<exists>i<length candidates.
           (\<forall>j<length candidates. spec_date (candidates ! i) \<le> spec_date (candidates ! j)) \<and>
           (\<forall>j<i. spec_date (candidates ! i) < spec_date (candidates ! j)) \<and>
           release_tag m = rel_release_tag (candidates ! i) \<and>
           release_date m = get (rel_release_date (candidates ! i)) \<and>
           (\<forall>a\<in>set (milestone_apis m).
              cra_api_version a = spec_api_version (candidates ! i) (cra_api_name a))))"

subsection \<open>The divergence rule of the specification\<close>

text \<open>
  The specification (section 4.4) compares each planned API with its published base
  version: the version the release records for the API, with the pre-release suffix
  stripped. These definitions follow its words, to be compared with
  \<open>check_published_plan_diverged\<close>. A release that does not name the API has no base version
  for it; when it names the API more than once the last entry counts. A planned API has
  diverged when its base version is there, is not empty, and differs from the target version
  of the plan.
\<close>

definition spec_published_base :: "release_dict \<Rightarrow> string \<Rightarrow> string option" where
  "spec_published_base r name =
     (if name = [] then None
      else
        case List.find (\<lambda>a. ra_api_name a = Some name)
               (rev (case rel_apis r of Val release_apis \<Rightarrow> release_apis | _ \<Rightarrow> [])) of
          None \<Rightarrow> None
        | Some a \<Rightarrow> Some (base_version (ra_api_version a)))"

definition spec_diverged :: "release_dict \<Rightarrow> ApiEntry \<Rightarrow> bool" where
  "spec_diverged r api \<longleftrightarrow>
     (case spec_published_base r (api_name api) of
        None \<Rightarrow> False
      | Some b \<Rightarrow> b \<noteq> [] \<and> b \<noteq> target_api_version api)"

subsection \<open>Example inputs\<close>

text \<open>The entry the tests start from (\<^verbatim>\<open>_make_entry\<close> of \<^verbatim>\<open>test_warnings.py\<close>).\<close>

definition sample_entry :: ProgressEntry where
  "sample_entry =
     \<lparr>repository = ''TestRepo'', github_url = ''https://github.com/camaraproject/TestRepo'',
      release_track = None, meta_release = None, target_release_tag = Some ''r4.1'',
      target_release_type = Some ''pre-release-rc'', dependencies = None, apis = [],
      state = PLANNED,
      artifacts = \<lparr>snapshot_branch = None, release_pr = None,
                   draft_release = None, release_issue = None\<rparr>,
      published_context = \<lparr>latest_public_release = None, newest_pre_release = None\<rparr>,
      cycle_releases = CycleReleases_default, warnings = []\<rparr>"

text \<open>A withdrawn repository with the given snapshot branch left behind.\<close>

definition orphan_entry :: "string option \<Rightarrow> ProgressEntry" where
  "orphan_entry branch =
     sample_entry\<lparr>target_release_type := Some ''none'', state := NOT_PLANNED,
       artifacts := \<lparr>snapshot_branch = branch, release_pr = None,
                     draft_release = None, release_issue = None\<rparr>\<rparr>"

text \<open>A published entry that plans the given APIs, each as name and target version.\<close>

definition planned_api :: "string \<Rightarrow> string \<Rightarrow> ApiEntry" where
  "planned_api name version =
     \<lparr>api_name = name, target_api_version = version, target_api_status = ''public'',
      main_contacts = []\<rparr>"

definition published_entry :: "ApiEntry list \<Rightarrow> ProgressEntry" where
  "published_entry planned = sample_entry\<lparr>apis := planned, state := PUBLISHED\<rparr>"

text \<open>A ledger release of repository \<^verbatim>\<open>X\<close> in cycle \<^verbatim>\<open>Sync26\<close> with one API \<^verbatim>\<open>x\<close>.\<close>

definition ledger_release ::
  "string \<Rightarrow> string \<Rightarrow> string field \<Rightarrow> string \<Rightarrow> release_dict" where
  "ledger_release kind tag date version =
     \<lparr>rel_repository = Some ''X'', rel_meta_release = Some ''Sync26'',
      rel_release_type = Some kind, rel_release_tag = Some tag, rel_release_date = date,
      rel_apis = Val [\<lparr>ra_api_name = Some ''x'', ra_api_version = Some version\<rparr>]\<rparr>"

text \<open>A release of the given tag that lists the given APIs, each as name and version.\<close>

definition tagged_release :: "string \<Rightarrow> (string \<times> string) list \<Rightarrow> release_dict" where
  "tagged_release tag versions =
     \<lparr>rel_repository = Some ''TestRepo'', rel_meta_release = None, rel_release_type = None,
      rel_release_tag = Some tag, rel_release_date = Absent,
      rel_apis = Val (map (\<lambda>(n, v). \<lparr>ra_api_name = Some n, ra_api_version = Some v\<rparr>) versions)\<rparr>"

text \<open>An entry of the given cycle that plans one API and has reached the given first milestone.\<close>

definition cycle_entry :: "string option \<Rightarrow> MilestoneRelease option \<Rightarrow> ProgressEntry" where
  "cycle_entry cycle milestone =
     sample_entry\<lparr>meta_release := cycle, apis := [planned_api ''x'' ''1.0.0''],
       cycle_releases := \<lparr>m1 = milestone, m3 = None, m4 = None\<rparr>\<rparr>"

section \<open>Verified properties\<close>

subsection \<open>Snapshot matcher\<close>


lemma find_matching_snapshot_SomeD:
  assumes "find_matching_snapshot branches target_tag = Some b"
  shows "\<exists>t. target_tag = Some t \<and> t \<noteq> [] \<and> prefix (snapshot_prefix t) b \<and> b \<in> set branches"
  using assms
  by (auto simp: find_matching_snapshot_def find_Some_iff split: option.splits if_splits)




subsection \<open>State deriver\<close>

lemma has_matching_draft_iff:
  assumes "t \<noteq> []"
  shows "has_matching_draft ds (Some t) \<longleftrightarrow>
     (\<exists>d\<in>set ds. (\<exists>n. draft_name d = Some n \<and> sublist t n) \<or>
                   (\<exists>n. draft_tag_name d = Some n \<and> sublist t n))"
proof -
  have field: "sublist t (or_empty v) \<longleftrightarrow> (\<exists>n. v = Some n \<and> sublist t n)" for v
    using assms by (cases v) auto
  show ?thesis
    using assms by (auto simp: has_matching_draft_def list_ex_iff field)
qed

text \<open>
  Claim C1, as the code has it. The first rule of the decision list is the test
  \<^verbatim>\<open>not target_release_type or target_release_type == "none"\<close>: a release type that is null,
  \<^emph>\<open>the empty string\<close>, or \<^verbatim>\<open>none\<close> gives \<open>NOT_PLANNED\<close> whatever the tag, the tag's
  existence, the snapshot branches and the draft releases are. For every other release
  type, an existing tag gives \<open>PUBLISHED\<close> whatever the snapshot branches and draft releases
  are.
\<close>

theorem derive_state_priority:
  "(release_type = None \<or> release_type = Some [] \<or> release_type = Some ''none'' \<longrightarrow>
       derive_state release_type target_tag tag_exists snapshot_branches draft_releases
         = NOT_PLANNED) \<and>
   (release_type \<noteq> None \<and> release_type \<noteq> Some [] \<and> release_type \<noteq> Some ''none'' \<longrightarrow>
       derive_state release_type target_tag True snapshot_branches draft_releases = PUBLISHED)"
  by (cases release_type) (auto simp: derive_state_def)

text \<open>
  The theorem with a matching snapshot branch and a matching draft release both present:
  no release type gives \<open>NOT_PLANNED\<close>, and a release candidate whose tag exists gives
  \<open>PUBLISHED\<close>.
\<close>

theorem derive_state_priority_witness:
  "derive_state None (Some ''r4.1'') True [''release-snapshot/r4.1-abc123'']
      [\<lparr>draft_name = Some ''r4.1 pre-release-rc'', draft_tag_name = Some ''r4.1''\<rparr>]
     = NOT_PLANNED \<and>
   derive_state (Some ''pre-release-rc'') (Some ''r4.1'') True [''release-snapshot/r4.1-abc123'']
      [\<lparr>draft_name = Some ''r4.1 pre-release-rc'', draft_tag_name = Some ''r4.1''\<rparr>]
     = PUBLISHED"
  using
    derive_state_priority [of None "Some ''r4.1''" True "[''release-snapshot/r4.1-abc123'']"
      "[\<lparr>draft_name = Some ''r4.1 pre-release-rc'', draft_tag_name = Some ''r4.1''\<rparr>]"]
    derive_state_priority [of "Some ''pre-release-rc''" "Some ''r4.1''" True
      "[''release-snapshot/r4.1-abc123'']"
      "[\<lparr>draft_name = Some ''r4.1 pre-release-rc'', draft_tag_name = Some ''r4.1''\<rparr>]"]
  by simp

text \<open>
  Claim C1 as stated fails at the empty release type: it is neither null nor \<^verbatim>\<open>none\<close>,
  the tag exists, and the state is \<open>NOT_PLANNED\<close>, not \<open>PUBLISHED\<close>.
\<close>

theorem derive_state_empty_type_counterexample:
  "Some [] \<noteq> (None :: string option) \<and> Some [] \<noteq> Some ''none'' \<and>
   derive_state (Some []) (Some ''r4.1'') True [] [] = NOT_PLANNED \<and>
   derive_state (Some []) (Some ''r4.1'') True [] [] \<noteq> PUBLISHED"
  by (simp add: derive_state_def)

text \<open>
  Claim C2, as the code has it. For a release type that is present, not empty and not
  \<^verbatim>\<open>none\<close>, and a tag that does not exist: when the snapshot matcher finds a branch, the
  state is \<open>DRAFT_READY\<close> if some draft release has a \<^verbatim>\<open>name\<close> or a \<^verbatim>\<open>tag_name\<close> that
  contains the target tag as a substring, and \<open>SNAPSHOT_ACTIVE\<close> otherwise; when the matcher
  finds none, the state is \<open>PLANNED\<close>.
\<close>

theorem derive_state_ladder:
  assumes "release_type = Some ty" and "ty \<noteq> []" and "ty \<noteq> ''none''"
  shows "derive_state release_type target_tag False snapshot_branches draft_releases =
     (case find_matching_snapshot snapshot_branches target_tag of
        None \<Rightarrow> PLANNED
      | Some b \<Rightarrow>
          if (\<exists>d\<in>set draft_releases. \<exists>t. target_tag = Some t \<and>
                ((\<exists>n. draft_name d = Some n \<and> sublist t n) \<or>
                 (\<exists>n. draft_tag_name d = Some n \<and> sublist t n)))
          then DRAFT_READY else SNAPSHOT_ACTIVE)"
proof (cases "find_matching_snapshot snapshot_branches target_tag")
  case None
  then show ?thesis using assms by (simp add: derive_state_def)
next
  case (Some b)
  then obtain t where t: "target_tag = Some t" "t \<noteq> []" "prefix (snapshot_prefix t) b"
    using find_matching_snapshot_SomeD by blast
  then have "b \<noteq> []" by (auto simp: snapshot_prefix_def)
  then show ?thesis
    using assms Some t has_matching_draft_iff [OF t(2), of draft_releases]
    by (simp add: derive_state_def)
qed

text \<open>
  The theorem on the end-to-end scenario of the specification: a release candidate
  \<^verbatim>\<open>r4.1\<close> with its snapshot branch and a draft release is \<open>DRAFT_READY\<close>.
\<close>

theorem derive_state_ladder_witness:
  "derive_state (Some ''pre-release-rc'') (Some ''r4.1'') False [''release-snapshot/r4.1-abc123'']
      [\<lparr>draft_name = Some ''r4.1 pre-release-rc'', draft_tag_name = Some ''r4.1''\<rparr>]
     = DRAFT_READY"
proof -
  have "derive_state (Some ''pre-release-rc'') (Some ''r4.1'') False
      [''release-snapshot/r4.1-abc123'']
      [\<lparr>draft_name = Some ''r4.1 pre-release-rc'', draft_tag_name = Some ''r4.1''\<rparr>] =
     (case find_matching_snapshot [''release-snapshot/r4.1-abc123''] (Some ''r4.1'') of
        None \<Rightarrow> PLANNED
      | Some b \<Rightarrow>
          if (\<exists>d\<in>set [\<lparr>draft_name = Some ''r4.1 pre-release-rc'',
                          draft_tag_name = Some ''r4.1''\<rparr>].
               \<exists>t. Some ''r4.1'' = Some t \<and>
                ((\<exists>n. draft_name d = Some n \<and> sublist t n) \<or>
                 (\<exists>n. draft_tag_name d = Some n \<and> sublist t n)))
          then DRAFT_READY else SNAPSHOT_ACTIVE)"
    by (rule derive_state_ladder [of _ "''pre-release-rc''"]) simp_all
  also have "\<dots> = DRAFT_READY"
    by (simp add: find_matching_snapshot_def snapshot_prefix_def)
  finally show ?thesis .
qed

text \<open>
  Claim C2 as stated fails at the empty release type: it is a release type other than
  \<^verbatim>\<open>none\<close>, the tag does not exist and no snapshot branch matches, and the state is
  \<open>NOT_PLANNED\<close>, not \<open>PLANNED\<close>.
\<close>

theorem derive_state_ladder_empty_type_counterexample:
  "[] \<noteq> ''none'' \<and> find_matching_snapshot [] (Some ''r4.1'') = None \<and>
   derive_state (Some []) (Some ''r4.1'') False [] [] = NOT_PLANNED \<and>
   derive_state (Some []) (Some ''r4.1'') False [] [] \<noteq> PLANNED"
  by (simp add: derive_state_def find_matching_snapshot_def)

subsection \<open>Warning engine: the orphan check\<close>

lemma sublist_W002: "sublist b (message (W002 b))"
proof -
  have "message (W002 b) =
      ''Snapshot branch '' @ b @ ('' exists but release type is '' @ [CHR 0x27] @ ''none'' @ [CHR 0x27])"
    by (simp add: W002_def)
  then show ?thesis by (simp only: sublist_appendI)
qed

text \<open>
  Claim C9, as the code has it. The orphan check produces a warning if and only if the
  entry's state is \<open>NOT_PLANNED\<close> and the snapshot branch of its artifact summary is neither
  null \<^emph>\<open>nor the empty string\<close> (the test is \<^verbatim>\<open>if entry.artifacts.snapshot_branch\<close>). It
  then produces exactly one warning, with code \<^verbatim>\<open>W002\<close> and severity \<^verbatim>\<open>warning\<close>, whose
  message contains the branch name. With a null snapshot branch, or in any other state, it
  produces none. The release list plays no part.
\<close>

theorem check_orphaned_snapshot_fires_iff:
  "(check_orphaned_snapshot entry repo_releases \<noteq> [] \<longleftrightarrow>
      state entry = NOT_PLANNED \<and>
      snapshot_branch (artifacts entry) \<noteq> None \<and> snapshot_branch (artifacts entry) \<noteq> Some []) \<and>
   (\<forall>b. state entry = NOT_PLANNED \<and> snapshot_branch (artifacts entry) = Some b \<and> b \<noteq> [] \<longrightarrow>
      (\<exists>w. check_orphaned_snapshot entry repo_releases = [w] \<and>
           code w = ''W002'' \<and> severity w = ''warning'' \<and> sublist b (message w))) \<and>
   (state entry \<noteq> NOT_PLANNED \<or> snapshot_branch (artifacts entry) = None \<longrightarrow>
      check_orphaned_snapshot entry repo_releases = [])"
proof (intro conjI allI impI)
  show "check_orphaned_snapshot entry repo_releases \<noteq> [] \<longleftrightarrow>
      state entry = NOT_PLANNED \<and>
      snapshot_branch (artifacts entry) \<noteq> None \<and> snapshot_branch (artifacts entry) \<noteq> Some []"
    by (auto simp: check_orphaned_snapshot_def split: option.splits)
next
  fix b
  assume "state entry = NOT_PLANNED \<and> snapshot_branch (artifacts entry) = Some b \<and> b \<noteq> []"
  then have "check_orphaned_snapshot entry repo_releases = [W002 b]"
    by (simp add: check_orphaned_snapshot_def)
  moreover have "code (W002 b) = ''W002''" "severity (W002 b) = ''warning''"
    by (simp_all add: W002_def)
  ultimately show "\<exists>w. check_orphaned_snapshot entry repo_releases = [w] \<and>
           code w = ''W002'' \<and> severity w = ''warning'' \<and> sublist b (message w)"
    using sublist_W002 by blast
next
  assume "state entry \<noteq> NOT_PLANNED \<or> snapshot_branch (artifacts entry) = None"
  then show "check_orphaned_snapshot entry repo_releases = []"
    by (auto simp: check_orphaned_snapshot_def)
qed

text \<open>
  The theorem on the two entries of the specification: a withdrawn repository with the
  snapshot branch \<^verbatim>\<open>release-snapshot/r4.1-abc123\<close>, and the same entry without a branch.
\<close>

theorem check_orphaned_snapshot_fires_iff_witness:
  "(\<exists>w. check_orphaned_snapshot (orphan_entry (Some ''release-snapshot/r4.1-abc123'')) [] = [w] \<and>
        code w = ''W002'' \<and> severity w = ''warning'' \<and>
        sublist ''release-snapshot/r4.1-abc123'' (message w)) \<and>
   check_orphaned_snapshot (orphan_entry None) [] = []"
proof -
  have a: "state (orphan_entry (Some ''release-snapshot/r4.1-abc123'')) = NOT_PLANNED \<and>
     snapshot_branch (artifacts (orphan_entry (Some ''release-snapshot/r4.1-abc123'')))
       = Some ''release-snapshot/r4.1-abc123'' \<and> ''release-snapshot/r4.1-abc123'' \<noteq> []"
    by (simp add: orphan_entry_def)
  have b: "state (orphan_entry None) \<noteq> NOT_PLANNED \<or>
     snapshot_branch (artifacts (orphan_entry None)) = None"
    by (simp add: orphan_entry_def)
  note fires = check_orphaned_snapshot_fires_iff
      [of "orphan_entry (Some ''release-snapshot/r4.1-abc123'')" "[]",
       THEN conjunct2, THEN conjunct1, THEN spec, THEN mp, OF a]
  note silent = check_orphaned_snapshot_fires_iff
      [of "orphan_entry None" "[]", THEN conjunct2, THEN conjunct2, THEN mp, OF b]
  show ?thesis using fires silent by (rule conjI)
qed

text \<open>
  Claim C9 as stated fails at the empty branch name: the state is \<open>NOT_PLANNED\<close>, the
  snapshot branch is not null, and no warning is produced.
\<close>

theorem check_orphaned_snapshot_empty_branch_counterexample:
  "state (orphan_entry (Some [])) = NOT_PLANNED \<and>
   snapshot_branch (artifacts (orphan_entry (Some []))) \<noteq> None \<and>
   check_orphaned_snapshot (orphan_entry (Some [])) [] = []"
  by (simp add: orphan_entry_def check_orphaned_snapshot_def)

subsection \<open>Serialisation of a progress entry\<close>

lemma has_key_str_item [simp]:
  "has_key (str_item_if_truthy k v) k' \<longleftrightarrow> k' = k \<and> v \<noteq> None \<and> v \<noteq> Some []"
  by (cases v) (auto simp: has_key_def keys_def)

lemma has_key_dict_item [simp]:
  "has_key (dict_item_if_truthy k v) k' \<longleftrightarrow> k' = k \<and> v \<noteq> None \<and> v \<noteq> Some []"
  by (cases v) (auto simp: has_key_def keys_def)

lemma has_key_append [simp]: "has_key (d @ d') k \<longleftrightarrow> has_key d k \<or> has_key d' k"
  by (auto simp: has_key_def keys_def)

lemma has_key_Cons [simp]: "has_key ((k', v) # d) k \<longleftrightarrow> k = k' \<or> has_key d k"
  by (auto simp: has_key_def keys_def)

lemma has_key_Nil [simp]: "\<not> has_key [] k"
  by (simp add: has_key_def keys_def)

lemma map_of_str_item [simp]:
  "k' \<noteq> k \<Longrightarrow> map_of (str_item_if_truthy k v) k' = None"
  by (cases v) auto

lemma map_of_dict_item [simp]:
  "k' \<noteq> k \<Longrightarrow> map_of (dict_item_if_truthy k v) k' = None"
  by (cases v) auto










lemma to_dict_cycle_releases:
  "map_of (ProgressEntry_to_dict e) ''cycle_releases'' =
     Some (PDict (CycleReleases_to_dict (cycle_releases e)))"
  by (simp add: ProgressEntry_to_dict_def map_add_def)

lemma distinct_keys_to_dict: "distinct (keys (ProgressEntry_to_dict e))"
  by (cases "release_track e"; cases "meta_release e"; cases "dependencies e")
     (simp_all add: ProgressEntry_to_dict_def keys_def)

lemma truthy_iff: "truthy v \<longleftrightarrow> v \<noteq> None \<and> v \<noteq> Some []"
  by (cases v) auto

lemma has_key_milestone_item [simp]:
  "has_key (milestone_item k v) k' \<longleftrightarrow> k' = k \<and> v \<noteq> None"
  by (cases v) (auto simp: has_key_def keys_def)





subsection \<open>Meta-release summaries\<close>

lemma summaries_step_other:
  "meta_release e \<noteq> Some c \<or> c = [] \<Longrightarrow> summaries_step e m c = m c"
  by (auto simp: summaries_step_def Let_def split: option.splits)

lemma summaries_step_same:
  assumes "meta_release e = Some c" and "c \<noteq> []"
  shows "summaries_step e m c =
     Some \<lparr>total_apis =
             total_apis (case m c of None \<Rightarrow> summary_zero | Some s \<Rightarrow> s) + length (apis e),
           m1_achieved =
             m1_achieved (case m c of None \<Rightarrow> summary_zero | Some s \<Rightarrow> s)
               + achieved_count (m1 (cycle_releases e)),
           m3_achieved =
             m3_achieved (case m c of None \<Rightarrow> summary_zero | Some s \<Rightarrow> s)
               + achieved_count (m3 (cycle_releases e)),
           m4_achieved =
             m4_achieved (case m c of None \<Rightarrow> summary_zero | Some s \<Rightarrow> s)
               + achieved_count (m4 (cycle_releases e))\<rparr>"
  using assms by (simp add: summaries_step_def Let_def)

lemma fold_summaries_step:
  "fold summaries_step es m c =
     (if c = [] \<or> filter (\<lambda>e. meta_release e = Some c) es = [] then m c
      else
        Some \<lparr>total_apis =
                total_apis (case m c of None \<Rightarrow> summary_zero | Some s \<Rightarrow> s)
                  + (\<Sum>e\<leftarrow>filter (\<lambda>e. meta_release e = Some c) es. length (apis e)),
              m1_achieved =
                m1_achieved (case m c of None \<Rightarrow> summary_zero | Some s \<Rightarrow> s)
                  + (\<Sum>e\<leftarrow>filter (\<lambda>e. meta_release e = Some c) es.
                       achieved_count (m1 (cycle_releases e))),
              m3_achieved =
                m3_achieved (case m c of None \<Rightarrow> summary_zero | Some s \<Rightarrow> s)
                  + (\<Sum>e\<leftarrow>filter (\<lambda>e. meta_release e = Some c) es.
                       achieved_count (m3 (cycle_releases e))),
              m4_achieved =
                m4_achieved (case m c of None \<Rightarrow> summary_zero | Some s \<Rightarrow> s)
                  + (\<Sum>e\<leftarrow>filter (\<lambda>e. meta_release e = Some c) es.
                       achieved_count (m4 (cycle_releases e)))\<rparr>)"
proof (induction es arbitrary: m)
  case Nil
  then show ?case by simp
next
  case (Cons e es)
  show ?case
  proof (cases "meta_release e = Some c \<and> c \<noteq> []")
    case True
    then show ?thesis
      by (simp add: Cons.IH summaries_step_same)
  next
    case False
    then have "summaries_step e m c = m c"
      using summaries_step_other [of e c m] by blast
    with False show ?thesis
      by (auto simp: Cons.IH)
  qed
qed

lemma build_meta_release_summaries_at:
  "build_meta_release_summaries es c =
     (if c \<noteq> [] \<and> (\<exists>e\<in>set es. meta_release e = Some c) then
        Some \<lparr>total_apis = (\<Sum>e\<leftarrow>filter (\<lambda>e. meta_release e = Some c) es. length (apis e)),
              m1_achieved = (\<Sum>e\<leftarrow>filter (\<lambda>e. meta_release e = Some c) es.
                               achieved_count (m1 (cycle_releases e))),
              m3_achieved = (\<Sum>e\<leftarrow>filter (\<lambda>e. meta_release e = Some c) es.
                               achieved_count (m3 (cycle_releases e))),
              m4_achieved = (\<Sum>e\<leftarrow>filter (\<lambda>e. meta_release e = Some c) es.
                               achieved_count (m4 (cycle_releases e)))\<rparr>
      else None)"
  unfolding build_meta_release_summaries_def fold_summaries_step
  by (auto simp: summary_zero_def filter_empty_conv)

lemma sum_list_filter_mset:
  fixes f :: "'a \<Rightarrow> nat"
  assumes "mset xs = mset ys"
  shows "(\<Sum>x\<leftarrow>filter P xs. f x) = (\<Sum>x\<leftarrow>filter P ys. f x)"
proof -
  have "mset (map f (filter P xs)) = mset (map f (filter P ys))"
    using assms by (metis mset_filter mset_map)
  then show ?thesis
    by (metis sum_mset_sum_list)
qed

lemma build_meta_release_summaries_perm:
  assumes "mset es' = mset es"
  shows "build_meta_release_summaries es' = build_meta_release_summaries es"
proof
  fix c
  have "set es' = set es" using assms by (rule mset_eq_setD)
  then show "build_meta_release_summaries es' c = build_meta_release_summaries es c"
    unfolding build_meta_release_summaries_at
    using sum_list_filter_mset [OF assms] by simp
qed

lemma build_meta_release_summaries_skip:
  assumes "meta_release e = None \<or> meta_release e = Some []"
  shows "build_meta_release_summaries (es @ e # es') = build_meta_release_summaries (es @ es')"
proof -
  have "summaries_step e m = m" for m
    using assms by (auto simp: summaries_step_def)
  then show ?thesis
    by (simp add: build_meta_release_summaries_def)
qed

lemma achieved_count_Some:
  "achieved_count (Some m) =
     (if release_tag m = None \<or> release_tag m = Some [] then 0
      else length (filter (\<lambda>a. cra_api_version a \<noteq> None \<and> cra_api_version a \<noteq> Some [])
                     (milestone_apis m)))"
proof -
  have t: "truthy v \<longleftrightarrow> v \<noteq> None \<and> v \<noteq> Some []" for v
    by (cases v) auto
  show ?thesis by (simp add: achieved_count_def t)
qed

text \<open>
  Claim C5, as the code has it. For a repository whose cycle identifier is null (or the
  empty string): \<open>derive_cycle_releases\<close> returns the default \<^verbatim>\<open>CycleReleases()\<close>, an object
  whose three milestones are null, whatever the ledger and the plan are; an entry with such
  a cycle identifier changes no summary, wherever it stands in the list of entries; and an
  entry that carries these cycle releases is serialised with the key \<^verbatim>\<open>cycle_releases\<close>
  present and holding the empty dictionary.
\<close>

theorem independent_repository_empty_cycle_releases:
  "(cycle = None \<or> cycle = Some [] \<longrightarrow>
      derive_cycle_releases repo cycle all_releases planned_apis =
        Inr \<lparr>m1 = None, m3 = None, m4 = None\<rparr>) \<and>
   (meta_release e = None \<or> meta_release e = Some [] \<longrightarrow>
      build_meta_release_summaries (es @ e # es') = build_meta_release_summaries (es @ es')) \<and>
   (cycle_releases e = \<lparr>m1 = None, m3 = None, m4 = None\<rparr> \<longrightarrow>
      map_of (ProgressEntry_to_dict e) ''cycle_releases'' = Some (PDict []))"
proof (intro conjI impI)
  assume "cycle = None \<or> cycle = Some []"
  then show "derive_cycle_releases repo cycle all_releases planned_apis =
        Inr \<lparr>m1 = None, m3 = None, m4 = None\<rparr>"
    by (auto simp: derive_cycle_releases_def CycleReleases_default_def)
next
  assume "meta_release e = None \<or> meta_release e = Some []"
  then show "build_meta_release_summaries (es @ e # es') = build_meta_release_summaries (es @ es')"
    by (rule build_meta_release_summaries_skip)
next
  assume "cycle_releases e = \<lparr>m1 = None, m3 = None, m4 = None\<rparr>"
  then show "map_of (ProgressEntry_to_dict e) ''cycle_releases'' = Some (PDict [])"
    by (simp add: to_dict_cycle_releases CycleReleases_to_dict_def)
qed

text \<open>
  The theorem on the sample entry, which has no cycle identifier.
\<close>

theorem independent_repository_empty_cycle_releases_witness:
  "derive_cycle_releases ''X'' None
      [ledger_release ''pre-release-alpha'' ''r4.1'' (Val ''2026-02-10'') ''1.0.0-alpha.1''] [''x'']
     = Inr \<lparr>m1 = None, m3 = None, m4 = None\<rparr> \<and>
   build_meta_release_summaries ([cycle_entry (Some ''Sync26'') None] @ sample_entry # [])
     = build_meta_release_summaries ([cycle_entry (Some ''Sync26'') None] @ []) \<and>
   map_of (ProgressEntry_to_dict sample_entry) ''cycle_releases'' = Some (PDict [])"
proof -
  have a: "None = (None :: string option) \<or> None = Some []" by simp
  have b: "meta_release sample_entry = None \<or> meta_release sample_entry = Some []"
    by (simp add: sample_entry_def)
  have c: "cycle_releases sample_entry = \<lparr>m1 = None, m3 = None, m4 = None\<rparr>"
    by (simp add: sample_entry_def CycleReleases_default_def)
  note t = independent_repository_empty_cycle_releases
     [of None "''X''"
         "[ledger_release ''pre-release-alpha'' ''r4.1'' (Val ''2026-02-10'') ''1.0.0-alpha.1'']"
         "[''x'']" sample_entry "[cycle_entry (Some ''Sync26'') None]" "[]"]
  show ?thesis
    using t [THEN conjunct1, THEN mp, OF a] t [THEN conjunct2, THEN conjunct1, THEN mp, OF b]
      t [THEN conjunct2, THEN conjunct2, THEN mp, OF c]
    by (intro conjI)
qed

text \<open>
  Claim C5 as stated fails on the sample entry: its cycle identifier is null, the cycle
  releases derived for it are the ones it carries, and its serialised form does have the
  key \<^verbatim>\<open>cycle_releases\<close>, holding an empty dictionary: an empty structure that is present,
  not an absent one.
\<close>

theorem independent_repository_cycle_releases_present_counterexample:
  "meta_release sample_entry = None \<and>
   derive_cycle_releases (repository sample_entry) (meta_release sample_entry) [] []
     = Inr (cycle_releases sample_entry) \<and>
   has_key (ProgressEntry_to_dict sample_entry) ''cycle_releases'' \<and>
   map_of (ProgressEntry_to_dict sample_entry) ''cycle_releases'' = Some (PDict [])"
  by (simp add: sample_entry_def ProgressEntry_to_dict_def CycleReleases_default_def
      CycleReleases_to_dict_def derive_cycle_releases_def)

text \<open>
  Claim C7, as the code has it. The summary of a cycle \<open>c\<close> exists exactly when \<open>c\<close> is not
  the empty string and some entry has the cycle identifier \<open>c\<close>; its four counters are sums
  over the entries of that cycle: the number of planned APIs, and for each milestone what
  \<open>achieved_count\<close> gives. \<open>achieved_count\<close> is zero for a null milestone and for a milestone
  whose release tag is null \<^emph>\<open>or empty\<close>; otherwise it is the number of the milestone's APIs
  whose version is neither null \<^emph>\<open>nor empty\<close>. The summaries do not depend on the order of
  the entries: any permutation of the list gives the same summaries. (Being a function of
  its argument, the model gives the same summaries when called again on the same list; the
  source reads nothing but its argument and does not change it.)
\<close>

theorem build_meta_release_summaries_sums:
  "(\<forall>c. build_meta_release_summaries es c =
      (if c \<noteq> [] \<and> (\<exists>e\<in>set es. meta_release e = Some c) then
         Some \<lparr>total_apis = (\<Sum>e\<leftarrow>filter (\<lambda>e. meta_release e = Some c) es. length (apis e)),
               m1_achieved = (\<Sum>e\<leftarrow>filter (\<lambda>e. meta_release e = Some c) es.
                                achieved_count (m1 (cycle_releases e))),
               m3_achieved = (\<Sum>e\<leftarrow>filter (\<lambda>e. meta_release e = Some c) es.
                                achieved_count (m3 (cycle_releases e))),
               m4_achieved = (\<Sum>e\<leftarrow>filter (\<lambda>e. meta_release e = Some c) es.
                                achieved_count (m4 (cycle_releases e)))\<rparr>
       else None)) \<and>
   achieved_count None = 0 \<and>
   (\<forall>m. achieved_count (Some m) =
      (if release_tag m = None \<or> release_tag m = Some [] then 0
       else length (filter (\<lambda>a. cra_api_version a \<noteq> None \<and> cra_api_version a \<noteq> Some [])
                      (milestone_apis m)))) \<and>
   (\<forall>es'. mset es' = mset es \<longrightarrow>
      build_meta_release_summaries es' = build_meta_release_summaries es)"
proof (intro conjI allI impI)
  fix c
  show "build_meta_release_summaries es c =
      (if c \<noteq> [] \<and> (\<exists>e\<in>set es. meta_release e = Some c) then
         Some \<lparr>total_apis = (\<Sum>e\<leftarrow>filter (\<lambda>e. meta_release e = Some c) es. length (apis e)),
               m1_achieved = (\<Sum>e\<leftarrow>filter (\<lambda>e. meta_release e = Some c) es.
                                achieved_count (m1 (cycle_releases e))),
               m3_achieved = (\<Sum>e\<leftarrow>filter (\<lambda>e. meta_release e = Some c) es.
                                achieved_count (m3 (cycle_releases e))),
               m4_achieved = (\<Sum>e\<leftarrow>filter (\<lambda>e. meta_release e = Some c) es.
                                achieved_count (m4 (cycle_releases e)))\<rparr>
       else None)"
    by (rule build_meta_release_summaries_at)
next
  show "achieved_count None = 0" by (simp add: achieved_count_def)
next
  fix m
  show "achieved_count (Some m) =
      (if release_tag m = None \<or> release_tag m = Some [] then 0
       else length (filter (\<lambda>a. cra_api_version a \<noteq> None \<and> cra_api_version a \<noteq> Some [])
                      (milestone_apis m)))"
    by (rule achieved_count_Some)
next
  fix es'
  assume "mset es' = mset es"
  then show "build_meta_release_summaries es' = build_meta_release_summaries es"
    by (rule build_meta_release_summaries_perm)
qed

text \<open>
  The theorem on three entries, two of them in cycle \<^verbatim>\<open>Sync26\<close>, and on a permutation of
  them.
\<close>

theorem build_meta_release_summaries_sums_witness:
  "build_meta_release_summaries
      [cycle_entry (Some ''Sync26'')
         (Some \<lparr>release_tag = Some ''r4.1'', release_date = Some ''2026-02-10'',
                milestone_apis = [\<lparr>cra_api_name = ''x'', cra_api_version = Some ''1.0.0-alpha.1''\<rparr>]\<rparr>),
       sample_entry,
       cycle_entry (Some ''Sync26'') None] ''Sync26''
     = Some \<lparr>total_apis = 2, m1_achieved = 1, m3_achieved = 0, m4_achieved = 0\<rparr> \<and>
   build_meta_release_summaries
      [cycle_entry (Some ''Sync26'') None,
       cycle_entry (Some ''Sync26'')
         (Some \<lparr>release_tag = Some ''r4.1'', release_date = Some ''2026-02-10'',
                milestone_apis = [\<lparr>cra_api_name = ''x'', cra_api_version = Some ''1.0.0-alpha.1''\<rparr>]\<rparr>),
       sample_entry]
     = build_meta_release_summaries
      [cycle_entry (Some ''Sync26'')
         (Some \<lparr>release_tag = Some ''r4.1'', release_date = Some ''2026-02-10'',
                milestone_apis = [\<lparr>cra_api_name = ''x'', cra_api_version = Some ''1.0.0-alpha.1''\<rparr>]\<rparr>),
       sample_entry,
       cycle_entry (Some ''Sync26'') None]"
proof -
  let ?a = "cycle_entry (Some ''Sync26'')
         (Some \<lparr>release_tag = Some ''r4.1'', release_date = Some ''2026-02-10'',
                milestone_apis = [\<lparr>cra_api_name = ''x'', cra_api_version = Some ''1.0.0-alpha.1''\<rparr>]\<rparr>)"
  let ?b = "cycle_entry (Some ''Sync26'') None"
  note t = build_meta_release_summaries_sums [of "[?a, sample_entry, ?b]"]
  have "build_meta_release_summaries [?a, sample_entry, ?b] ''Sync26''
     = Some \<lparr>total_apis = 2, m1_achieved = 1, m3_achieved = 0, m4_achieved = 0\<rparr>"
    unfolding t [THEN conjunct1, THEN spec, of "''Sync26''"]
    by (simp add: cycle_entry_def sample_entry_def planned_api_def achieved_count_def)
  moreover have "mset [?b, ?a, sample_entry] = mset [?a, sample_entry, ?b]"
    by simp
  then have "build_meta_release_summaries [?b, ?a, sample_entry]
     = build_meta_release_summaries [?a, sample_entry, ?b]"
    by (rule t [THEN conjunct2, THEN conjunct2, THEN conjunct2, THEN spec, THEN mp])
  ultimately show ?thesis by (rule conjI)
qed

text \<open>
  Claim C7 as stated fails on empty strings. A first milestone with a release tag and one
  API whose version is the empty string (not null) adds nothing to \<^verbatim>\<open>m1_achieved\<close>; neither
  does a first milestone whose release tag is the empty string (not null) and whose API
  has a version. And an entry whose cycle identifier is the empty string (not null) has no
  summary to add its planned API to.
\<close>

theorem build_meta_release_summaries_empty_string_counterexample:
  "release_tag \<lparr>release_tag = Some ''r4.1'', release_date = None,
       milestone_apis = [\<lparr>cra_api_name = ''x'', cra_api_version = Some []\<rparr>]\<rparr> \<noteq> None \<and>
   length (filter (\<lambda>a. cra_api_version a \<noteq> None)
       [\<lparr>cra_api_name = ''x'', cra_api_version = Some []\<rparr>]) = 1 \<and>
   build_meta_release_summaries
      [cycle_entry (Some ''Sync26'')
         (Some \<lparr>release_tag = Some ''r4.1'', release_date = None,
                milestone_apis = [\<lparr>cra_api_name = ''x'', cra_api_version = Some []\<rparr>]\<rparr>)] ''Sync26''
     = Some \<lparr>total_apis = 1, m1_achieved = 0, m3_achieved = 0, m4_achieved = 0\<rparr> \<and>
   release_tag \<lparr>release_tag = Some [], release_date = None,
       milestone_apis = [\<lparr>cra_api_name = ''x'', cra_api_version = Some ''1.0.0''\<rparr>]\<rparr> \<noteq> None \<and>
   build_meta_release_summaries
      [cycle_entry (Some ''Sync26'')
         (Some \<lparr>release_tag = Some [], release_date = None,
                milestone_apis = [\<lparr>cra_api_name = ''x'', cra_api_version = Some ''1.0.0''\<rparr>]\<rparr>)] ''Sync26''
     = Some \<lparr>total_apis = 1, m1_achieved = 0, m3_achieved = 0, m4_achieved = 0\<rparr> \<and>
   meta_release (cycle_entry (Some []) None) \<noteq> None \<and>
   length (apis (cycle_entry (Some []) None)) = 1 \<and>
   build_meta_release_summaries [cycle_entry (Some []) None] [] = None"
  by (simp add: build_meta_release_summaries_def summaries_step_def cycle_entry_def
      sample_entry_def planned_api_def achieved_count_def summary_zero_def)

subsection \<open>Milestone deriver\<close>

lemma find_filter_head: "filter P xs = y # zs \<Longrightarrow> List.find P xs = Some y"
  by (induction xs) (auto split: if_splits)

lemma sort_key_head:
  fixes f :: "'a \<Rightarrow> 'k::linorder"
  assumes "sort_key f xs = y # ys"
  shows "\<exists>i<length xs. xs ! i = y \<and> (\<forall>j<length xs. f y \<le> f (xs ! j)) \<and> (\<forall>j<i. f y < f (xs ! j))"
proof -
  have srt: "sorted (map f (y # ys))"
    using assms sorted_sort_key [of f xs] by simp
  have set_eq: "set xs = set (y # ys)"
    using assms set_sort [of f xs] by simp
  have least: "f y \<le> f z" if "z \<in> set xs" for z
    using srt set_eq that by auto
  have "filter (\<lambda>z. f z = f y) xs = filter (\<lambda>z. f z = f y) (sort_key f xs)"
    by (simp add: sort_key_stable)
  also have "\<dots> = y # filter (\<lambda>z. f z = f y) ys"
    using assms by simp
  finally have "List.find (\<lambda>z. f z = f y) xs = Some y"
    by (rule find_filter_head)
  then obtain i where i: "i < length xs" "xs ! i = y" "\<forall>j<i. f (xs ! j) \<noteq> f y"
    by (auto simp: find_Some_iff)
  have "f y < f (xs ! j)" if "j < i" for j
    using that i least [of "xs ! j"] by (metis le_neq_trans less_trans nth_mem)
  with i least show ?thesis
    by (metis nth_mem)
qed

lemma find_append_case:
  "List.find P (xs @ ys) = (case List.find P xs of None \<Rightarrow> List.find P ys | Some x \<Rightarrow> Some x)"
  by (induction xs) auto

lemma release_api_versions_step_apply:
  "release_api_versions_step a m name =
     (if ra_api_name a = Some name \<and> name \<noteq> [] then Some (ra_api_version a) else m name)"
  by (auto simp: release_api_versions_step_def split: option.splits)

lemma fold_release_api_versions_step:
  "fold release_api_versions_step release_apis m name =
     (if name = [] then m name
      else
        case List.find (\<lambda>a. ra_api_name a = Some name) (rev release_apis) of
          None \<Rightarrow> m name
        | Some a \<Rightarrow> Some (ra_api_version a))"
proof (induction release_apis arbitrary: m)
  case Nil
  then show ?case by simp
next
  case (Cons a release_apis)
  have "fold release_api_versions_step (a # release_apis) m name =
      fold release_api_versions_step release_apis (release_api_versions_step a m) name"
    by simp
  also have "\<dots> =
     (if name = [] then release_api_versions_step a m name
      else
        case List.find (\<lambda>a. ra_api_name a = Some name) (rev release_apis) of
          None \<Rightarrow> release_api_versions_step a m name
        | Some a \<Rightarrow> Some (ra_api_version a))"
    by (rule Cons.IH)
  also have "\<dots> =
     (if name = [] then m name
      else
        case List.find (\<lambda>a. ra_api_name a = Some name) (rev (a # release_apis)) of
          None \<Rightarrow> m name
        | Some a \<Rightarrow> Some (ra_api_version a))"
    by (simp add: release_api_versions_step_apply find_append_case split: option.splits)
  finally show ?case .
qed

lemma versions_get_release_api_versions:
  "versions_get (release_api_versions release_apis) name =
     (if name = [] then None
      else
        case List.find (\<lambda>a. ra_api_name a = Some name) (rev release_apis) of
          None \<Rightarrow> None
        | Some a \<Rightarrow> ra_api_version a)"
  by (simp add: versions_get_def release_api_versions_def fold_release_api_versions_step
      split: option.splits)

lemma spec_milestone_empty: "spec_milestone [] planned_apis (empty_milestone planned_apis)"
  by (simp add: spec_milestone_def empty_milestone_def comp_def)

lemma find_earliest_by_type_none:
  assumes "filter (\<lambda>r. rel_release_type r = Some rt) cycle_rels = []"
  shows "find_earliest_by_type cycle_rels rt planned_apis = Inr (empty_milestone planned_apis)"
  using assms by (simp add: find_earliest_by_type_def)

lemma date_key_no_null:
  "rel_release_date r \<noteq> Null \<Longrightarrow> date_key r = Some (spec_date r)"
  by (cases "rel_release_date r") (simp_all add: date_key_def spec_date_def)

lemma sort_by_release_date_no_null:
  assumes "\<forall>r\<in>set cs. rel_release_date r \<noteq> Null"
  shows "sort_by_release_date cs = Inr (sort_key (\<lambda>r. or_empty (date_key r)) cs)"
  using assms by (auto simp: sort_by_release_date_def list_ex_iff date_key_no_null)

lemma sort_by_release_date_single:
  "sort_by_release_date [r] = Inr [r]"
  by (simp add: sort_by_release_date_def)

lemma find_earliest_by_type_chosen:
  assumes cs: "cs = filter (\<lambda>r. rel_release_type r = Some rt) cycle_rels"
      and ne: "cs \<noteq> []"
      and dates: "\<forall>r\<in>set cs. rel_release_date r \<noteq> Null"
      and apis: "\<forall>r\<in>set cs. rel_apis r \<noteq> Null"
  shows "\<exists>i<length cs.
           (\<forall>j<length cs. spec_date (cs ! i) \<le> spec_date (cs ! j)) \<and>
           (\<forall>j<i. spec_date (cs ! i) < spec_date (cs ! j)) \<and>
           find_earliest_by_type cycle_rels rt planned_apis =
             Inr \<lparr>release_tag = rel_release_tag (cs ! i),
                  release_date = get (rel_release_date (cs ! i)),
                  milestone_apis =
                    map (\<lambda>name. \<lparr>cra_api_name = name,
                                  cra_api_version = spec_api_version (cs ! i) name\<rparr>)
                        planned_apis\<rparr>"
proof -
  let ?f = "\<lambda>r. or_empty (date_key r)"
  have key: "?f r = spec_date r" if "r \<in> set cs" for r
    using that dates by (simp add: date_key_no_null)
  obtain y ys where sorted_cs: "sort_key ?f cs = y # ys"
    using ne by (metis length_sort length_0_conv neq_Nil_conv)
  then obtain i where i: "i < length cs" "cs ! i = y"
      and least: "\<forall>j<length cs. ?f y \<le> ?f (cs ! j)"
      and first: "\<forall>j<i. ?f y < ?f (cs ! j)"
    using sort_key_head [of ?f cs y ys] by blast
  have y_in: "y \<in> set cs" using i by auto
  have "rel_apis y \<noteq> Null" using apis y_in by blast
  then obtain release_apis where ra:
      "get_default (rel_apis y) [] = Some release_apis"
      "(case rel_apis y of Val release_apis \<Rightarrow> release_apis | _ \<Rightarrow> []) = release_apis"
    by (cases "rel_apis y") auto
  have versions: "versions_get (release_api_versions release_apis) name = spec_api_version y name"
    for name
    by (simp add: versions_get_release_api_versions spec_api_version_def ra(2))
  have "find_earliest_by_type cycle_rels rt planned_apis =
     Inr \<lparr>release_tag = rel_release_tag y,
          release_date = get (rel_release_date y),
          milestone_apis =
            map (\<lambda>name. \<lparr>cra_api_name = name, cra_api_version = spec_api_version y name\<rparr>)
                planned_apis\<rparr>"
    using ne sorted_cs ra(1) sort_by_release_date_no_null [OF dates]
    by (simp add: find_earliest_by_type_def cs [symmetric] versions)
  moreover have "\<forall>j<length cs. spec_date (cs ! i) \<le> spec_date (cs ! j)"
    using least i key y_in by (metis nth_mem)
  moreover have "\<forall>j<i. spec_date (cs ! i) < spec_date (cs ! j)"
    using first i key y_in by (metis less_trans nth_mem)
  ultimately show ?thesis
    using i by blast
qed

lemma find_earliest_by_type_spec:
  assumes cs: "cs = filter (\<lambda>r. rel_release_type r = Some rt) cycle_rels"
      and dates: "\<forall>r\<in>set cs. rel_release_date r \<noteq> Null"
      and apis: "\<forall>r\<in>set cs. rel_apis r \<noteq> Null"
  shows "\<exists>m. find_earliest_by_type cycle_rels rt planned_apis = Inr m \<and>
             spec_milestone cs planned_apis m"
proof (cases "cs = []")
  case True
  then show ?thesis
    using cs find_earliest_by_type_none [of rt cycle_rels planned_apis] spec_milestone_empty
    by auto
next
  case False
  from find_earliest_by_type_chosen [OF cs False dates apis, of planned_apis]
  obtain i where i: "i < length cs"
      "\<forall>j<length cs. spec_date (cs ! i) \<le> spec_date (cs ! j)"
      "\<forall>j<i. spec_date (cs ! i) < spec_date (cs ! j)"
      "find_earliest_by_type cycle_rels rt planned_apis =
         Inr \<lparr>release_tag = rel_release_tag (cs ! i),
              release_date = get (rel_release_date (cs ! i)),
              milestone_apis =
                map (\<lambda>name. \<lparr>cra_api_name = name,
                              cra_api_version = spec_api_version (cs ! i) name\<rparr>)
                    planned_apis\<rparr>"
    by blast
  have "spec_milestone cs planned_apis
         \<lparr>release_tag = rel_release_tag (cs ! i),
          release_date = get (rel_release_date (cs ! i)),
          milestone_apis =
            map (\<lambda>name. \<lparr>cra_api_name = name,
                          cra_api_version = spec_api_version (cs ! i) name\<rparr>)
                planned_apis\<rparr>"
    unfolding spec_milestone_def using False i(1,2,3)
    by (auto simp: comp_def)
  with i(4) show ?thesis by blast
qed

text \<open>
  Claim C4, as the code has it. Take a cycle identifier that is neither null nor empty,
  and the releases of the ledger that match both the repository and the cycle, none of
  which has an explicit null \<^verbatim>\<open>release_date\<close> or \<^verbatim>\<open>apis\<close>. Then \<open>derive_cycle_releases\<close>
  returns all three milestones, and each is the milestone of the specification
  (\<open>spec_milestone\<close>) for the candidates of its kind, the matching releases whose
  \<^verbatim>\<open>release_type\<close> is exactly \<^verbatim>\<open>pre-release-alpha\<close>, \<^verbatim>\<open>pre-release-rc\<close> or \<^verbatim>\<open>public-release\<close>:
  one entry per planned API in plan order; taken from the first candidate of the stable
  ascending sort by date (string comparison), with that release's tag, date and API
  versions, null for an API the release does not name; unachieved when the kind has no
  candidate. In particular, when no release matches the repository and the cycle, all
  three milestones are unachieved.
\<close>

theorem derive_cycle_releases_milestones:
  assumes "cycle \<noteq> []"
      and "cycle_rels =
             filter (\<lambda>r. rel_repository r = Some repo \<and> rel_meta_release r = Some cycle)
               all_releases"
      and "\<forall>r\<in>set cycle_rels. rel_release_date r \<noteq> Null \<and> rel_apis r \<noteq> Null"
  shows "\<exists>a b c.
     derive_cycle_releases repo (Some cycle) all_releases planned_apis =
       Inr \<lparr>m1 = Some a, m3 = Some b, m4 = Some c\<rparr> \<and>
     spec_milestone (filter (\<lambda>r. rel_release_type r = Some ''pre-release-alpha'') cycle_rels)
       planned_apis a \<and>
     spec_milestone (filter (\<lambda>r. rel_release_type r = Some ''pre-release-rc'') cycle_rels)
       planned_apis b \<and>
     spec_milestone (filter (\<lambda>r. rel_release_type r = Some ''public-release'') cycle_rels)
       planned_apis c \<and>
     (cycle_rels = [] \<longrightarrow>
        a = \<lparr>release_tag = None, release_date = None,
             milestone_apis = map (\<lambda>n. \<lparr>cra_api_name = n, cra_api_version = None\<rparr>) planned_apis\<rparr> \<and>
        b = a \<and> c = a)"
proof (cases "cycle_rels = []")
  case True
  have "spec_milestone [] planned_apis (empty_milestone planned_apis)"
    by (rule spec_milestone_empty)
  moreover have "derive_cycle_releases repo (Some cycle) all_releases planned_apis =
      Inr \<lparr>m1 = Some (empty_milestone planned_apis), m3 = Some (empty_milestone planned_apis),
           m4 = Some (empty_milestone planned_apis)\<rparr>"
    using True assms(1,2) by (simp add: derive_cycle_releases_def)
  ultimately show ?thesis
    using True by (simp add: empty_milestone_def)
next
  case False
  have ok: "\<forall>r\<in>set (filter (\<lambda>r. rel_release_type r = Some rt) cycle_rels).
              rel_release_date r \<noteq> Null"
       "\<forall>r\<in>set (filter (\<lambda>r. rel_release_type r = Some rt) cycle_rels). rel_apis r \<noteq> Null"
    for rt
    using assms(3) by auto
  obtain a where a: "find_earliest_by_type cycle_rels ''pre-release-alpha'' planned_apis = Inr a"
      "spec_milestone (filter (\<lambda>r. rel_release_type r = Some ''pre-release-alpha'') cycle_rels)
         planned_apis a"
    using find_earliest_by_type_spec [OF refl ok] by blast
  obtain b where b: "find_earliest_by_type cycle_rels ''pre-release-rc'' planned_apis = Inr b"
      "spec_milestone (filter (\<lambda>r. rel_release_type r = Some ''pre-release-rc'') cycle_rels)
         planned_apis b"
    using find_earliest_by_type_spec [OF refl ok] by blast
  obtain c where c: "find_earliest_by_type cycle_rels ''public-release'' planned_apis = Inr c"
      "spec_milestone (filter (\<lambda>r. rel_release_type r = Some ''public-release'') cycle_rels)
         planned_apis c"
    using find_earliest_by_type_spec [OF refl ok] by blast
  have "derive_cycle_releases repo (Some cycle) all_releases planned_apis =
       Inr \<lparr>m1 = Some a, m3 = Some b, m4 = Some c\<rparr>"
    using False assms(1) a(1) b(1) c(1)
    by (simp add: derive_cycle_releases_def assms(2) [symmetric])
  with a(2) b(2) c(2) False show ?thesis by blast
qed

text \<open>
  The theorem on a ledger of repository \<^verbatim>\<open>X\<close> in cycle \<^verbatim>\<open>Sync26\<close> with two alpha releases
  and one release candidate, and the value the function computes there: the earlier alpha
  is the first milestone, the release candidate the second, and the third is unachieved
  with a null version for the planned API. For a repository without releases in the cycle,
  all three milestones are unachieved.
\<close>

theorem derive_cycle_releases_milestones_witness:
  "(\<exists>a b c.
      derive_cycle_releases ''X'' (Some ''Sync26'')
        [ledger_release ''pre-release-alpha'' ''r4.1'' (Val ''2026-02-10'') ''1.0.0-alpha.2'',
         ledger_release ''pre-release-rc'' ''r4.2'' (Val ''2026-03-15'') ''1.0.0-rc.1'',
         ledger_release ''pre-release-alpha'' ''r4.0'' (Val ''2026-01-05'') ''1.0.0-alpha.1'']
        [''x''] = Inr \<lparr>m1 = Some a, m3 = Some b, m4 = Some c\<rparr> \<and>
      spec_milestone
        (filter (\<lambda>r. rel_release_type r = Some ''pre-release-alpha'')
          [ledger_release ''pre-release-alpha'' ''r4.1'' (Val ''2026-02-10'') ''1.0.0-alpha.2'',
           ledger_release ''pre-release-rc'' ''r4.2'' (Val ''2026-03-15'') ''1.0.0-rc.1'',
           ledger_release ''pre-release-alpha'' ''r4.0'' (Val ''2026-01-05'') ''1.0.0-alpha.1''])
        [''x''] a \<and>
      spec_milestone
        (filter (\<lambda>r. rel_release_type r = Some ''pre-release-rc'')
          [ledger_release ''pre-release-alpha'' ''r4.1'' (Val ''2026-02-10'') ''1.0.0-alpha.2'',
           ledger_release ''pre-release-rc'' ''r4.2'' (Val ''2026-03-15'') ''1.0.0-rc.1'',
           ledger_release ''pre-release-alpha'' ''r4.0'' (Val ''2026-01-05'') ''1.0.0-alpha.1''])
        [''x''] b \<and>
      spec_milestone
        (filter (\<lambda>r. rel_release_type r = Some ''public-release'')
          [ledger_release ''pre-release-alpha'' ''r4.1'' (Val ''2026-02-10'') ''1.0.0-alpha.2'',
           ledger_release ''pre-release-rc'' ''r4.2'' (Val ''2026-03-15'') ''1.0.0-rc.1'',
           ledger_release ''pre-release-alpha'' ''r4.0'' (Val ''2026-01-05'') ''1.0.0-alpha.1''])
        [''x''] c) \<and>
   derive_cycle_releases ''X'' (Some ''Sync26'')
      [ledger_release ''pre-release-alpha'' ''r4.1'' (Val ''2026-02-10'') ''1.0.0-alpha.2'',
       ledger_release ''pre-release-rc'' ''r4.2'' (Val ''2026-03-15'') ''1.0.0-rc.1'',
       ledger_release ''pre-release-alpha'' ''r4.0'' (Val ''2026-01-05'') ''1.0.0-alpha.1'']
      [''x'']
     = Inr \<lparr>m1 = Some \<lparr>release_tag = Some ''r4.0'', release_date = Some ''2026-01-05'',
                        milestone_apis =
                          [\<lparr>cra_api_name = ''x'', cra_api_version = Some ''1.0.0-alpha.1''\<rparr>]\<rparr>,
            m3 = Some \<lparr>release_tag = Some ''r4.2'', release_date = Some ''2026-03-15'',
                        milestone_apis =
                          [\<lparr>cra_api_name = ''x'', cra_api_version = Some ''1.0.0-rc.1''\<rparr>]\<rparr>,
            m4 = Some \<lparr>release_tag = None, release_date = None,
                        milestone_apis = [\<lparr>cra_api_name = ''x'', cra_api_version = None\<rparr>]\<rparr>\<rparr> \<and>
   derive_cycle_releases ''NewRepo'' (Some ''Sync26'')
      [ledger_release ''pre-release-alpha'' ''r4.1'' (Val ''2026-02-10'') ''1.0.0-alpha.2'',
       ledger_release ''pre-release-rc'' ''r4.2'' (Val ''2026-03-15'') ''1.0.0-rc.1'',
       ledger_release ''pre-release-alpha'' ''r4.0'' (Val ''2026-01-05'') ''1.0.0-alpha.1'']
      [''x'']
     = Inr \<lparr>m1 = Some \<lparr>release_tag = None, release_date = None,
                        milestone_apis = [\<lparr>cra_api_name = ''x'', cra_api_version = None\<rparr>]\<rparr>,
            m3 = Some \<lparr>release_tag = None, release_date = None,
                        milestone_apis = [\<lparr>cra_api_name = ''x'', cra_api_version = None\<rparr>]\<rparr>,
            m4 = Some \<lparr>release_tag = None, release_date = None,
                        milestone_apis = [\<lparr>cra_api_name = ''x'', cra_api_version = None\<rparr>]\<rparr>\<rparr>"
proof -
  let ?ledger =
    "[ledger_release ''pre-release-alpha'' ''r4.1'' (Val ''2026-02-10'') ''1.0.0-alpha.2'',
      ledger_release ''pre-release-rc'' ''r4.2'' (Val ''2026-03-15'') ''1.0.0-rc.1'',
      ledger_release ''pre-release-alpha'' ''r4.0'' (Val ''2026-01-05'') ''1.0.0-alpha.1'']"
  have cycle: "''Sync26'' \<noteq> []" by simp
  have matching: "?ledger =
      filter (\<lambda>r. rel_repository r = Some ''X'' \<and> rel_meta_release r = Some ''Sync26'') ?ledger"
    by (simp add: ledger_release_def)
  have well_formed: "\<forall>r\<in>set ?ledger. rel_release_date r \<noteq> Null \<and> rel_apis r \<noteq> Null"
    by (simp add: ledger_release_def)
  have 1: "\<exists>a b c.
      derive_cycle_releases ''X'' (Some ''Sync26'') ?ledger [''x'']
        = Inr \<lparr>m1 = Some a, m3 = Some b, m4 = Some c\<rparr> \<and>
      spec_milestone (filter (\<lambda>r. rel_release_type r = Some ''pre-release-alpha'') ?ledger)
        [''x''] a \<and>
      spec_milestone (filter (\<lambda>r. rel_release_type r = Some ''pre-release-rc'') ?ledger)
        [''x''] b \<and>
      spec_milestone (filter (\<lambda>r. rel_release_type r = Some ''public-release'') ?ledger)
        [''x''] c"
    using derive_cycle_releases_milestones [OF cycle matching well_formed, of "[''x'']"]
    by blast
  have 2: "derive_cycle_releases ''X'' (Some ''Sync26'') ?ledger [''x'']
     = Inr \<lparr>m1 = Some \<lparr>release_tag = Some ''r4.0'', release_date = Some ''2026-01-05'',
                        milestone_apis =
                          [\<lparr>cra_api_name = ''x'', cra_api_version = Some ''1.0.0-alpha.1''\<rparr>]\<rparr>,
            m3 = Some \<lparr>release_tag = Some ''r4.2'', release_date = Some ''2026-03-15'',
                        milestone_apis =
                          [\<lparr>cra_api_name = ''x'', cra_api_version = Some ''1.0.0-rc.1''\<rparr>]\<rparr>,
            m4 = Some \<lparr>release_tag = None, release_date = None,
                        milestone_apis = [\<lparr>cra_api_name = ''x'', cra_api_version = None\<rparr>]\<rparr>\<rparr>"
    by code_simp
  have none: "[] =
      filter (\<lambda>r. rel_repository r = Some ''NewRepo'' \<and> rel_meta_release r = Some ''Sync26'')
        ?ledger"
    by (simp add: ledger_release_def)
  have vacuous: "\<forall>r\<in>set ([] :: release_dict list). rel_release_date r \<noteq> Null \<and> rel_apis r \<noteq> Null"
    by simp
  have 3: "derive_cycle_releases ''NewRepo'' (Some ''Sync26'') ?ledger [''x'']
     = Inr \<lparr>m1 = Some \<lparr>release_tag = None, release_date = None,
                        milestone_apis = [\<lparr>cra_api_name = ''x'', cra_api_version = None\<rparr>]\<rparr>,
            m3 = Some \<lparr>release_tag = None, release_date = None,
                        milestone_apis = [\<lparr>cra_api_name = ''x'', cra_api_version = None\<rparr>]\<rparr>,
            m4 = Some \<lparr>release_tag = None, release_date = None,
                        milestone_apis = [\<lparr>cra_api_name = ''x'', cra_api_version = None\<rparr>]\<rparr>\<rparr>"
    using derive_cycle_releases_milestones [OF cycle none vacuous, of "[''x'']"]
    by auto
  show ?thesis using 1 2 3 by (intro conjI)
qed

text \<open>
  Claim C4 as stated fails in two places. The empty cycle identifier is not null, no release
  matches it, and the result has three null milestones, not three unachieved ones. And two
  alpha candidates, one of them with an explicit null date, are not sorted: the comparison
  of the null key raises \<^verbatim>\<open>TypeError\<close>.
\<close>

theorem derive_cycle_releases_empty_cycle_counterexample:
  "Some [] \<noteq> (None :: string option) \<and>
   filter (\<lambda>r. rel_repository r = Some ''X'' \<and> rel_meta_release r = Some []) [] = [] \<and>
   derive_cycle_releases ''X'' (Some []) [] [''x''] = Inr \<lparr>m1 = None, m3 = None, m4 = None\<rparr> \<and>
   derive_cycle_releases ''X'' (Some ''Sync26'')
      [ledger_release ''pre-release-alpha'' ''r4.1'' Null ''1.0.0-alpha.2'',
       ledger_release ''pre-release-alpha'' ''r4.0'' (Val ''2026-01-05'') ''1.0.0-alpha.1'']
      [''x''] = Inl TypeError"
  by (simp add: derive_cycle_releases_def CycleReleases_default_def find_earliest_by_type_def
      sort_by_release_date_def ledger_release_def date_key_def)

text \<open>
  Claim C10, as the code has it. A candidate without the key \<^verbatim>\<open>release_date\<close> has the sort
  key \<^verbatim>\<open>""\<close>. When no candidate has an explicit null date and every date that is present is
  a non-empty string, the first dateless candidate in input order is the one chosen: the
  milestone has its tag and a null date.
\<close>

theorem find_earliest_by_type_dateless_first:
  assumes cs: "candidates = filter (\<lambda>r. rel_release_type r = Some kind) cycle_rels"
      and i: "i < length candidates"
      and absent: "rel_release_date (candidates ! i) = Absent"
      and first: "\<forall>j<i. rel_release_date (candidates ! j) \<noteq> Absent"
      and dates: "\<forall>r\<in>set candidates. rel_release_date r \<noteq> Null \<and> rel_release_date r \<noteq> Val []"
      and apis: "\<forall>r\<in>set candidates. rel_apis r \<noteq> Null"
  shows "date_key (candidates ! i) = Some [] \<and>
     (\<exists>m. find_earliest_by_type cycle_rels kind planned_apis = Inr m \<and>
          release_tag m = rel_release_tag (candidates ! i) \<and> release_date m = None)"
proof -
  have ne: "candidates \<noteq> []" using i by auto
  have dates': "\<forall>r\<in>set candidates. rel_release_date r \<noteq> Null" using dates by blast
  from find_earliest_by_type_chosen [OF cs ne dates' apis, of planned_apis]
  obtain k where k: "k < length candidates"
      "\<forall>j<length candidates. spec_date (candidates ! k) \<le> spec_date (candidates ! j)"
      "\<forall>j<k. spec_date (candidates ! k) < spec_date (candidates ! j)"
      "find_earliest_by_type cycle_rels kind planned_apis =
         Inr \<lparr>release_tag = rel_release_tag (candidates ! k),
              release_date = get (rel_release_date (candidates ! k)),
              milestone_apis =
                map (\<lambda>name. \<lparr>cra_api_name = name,
                              cra_api_version = spec_api_version (candidates ! k) name\<rparr>)
                    planned_apis\<rparr>"
    by blast
  have di: "spec_date (candidates ! i) = []"
    using absent by (simp add: spec_date_def)
  have "spec_date (candidates ! k) \<le> []"
    using k(2) i di by metis
  then have dk: "spec_date (candidates ! k) = []"
    by simp
  have "rel_release_date (candidates ! k) = Absent"
  proof (cases "rel_release_date (candidates ! k)")
    case Absent
    then show ?thesis .
  next
    case Null
    then show ?thesis using dates k(1) nth_mem by metis
  next
    case (Val d)
    then have "d = []" using dk by (simp add: spec_date_def)
    then show ?thesis using Val dates k(1) nth_mem by metis
  qed
  then have "\<not> k < i" using first by blast
  moreover have "\<not> i < k" using k(3) di dk by auto
  ultimately have "k = i" by simp
  then show ?thesis
    using k(4) absent by (simp add: date_key_def)
qed

text \<open>
  The theorem on three alpha candidates, the second and third without a date: the second
  is chosen.
\<close>

theorem find_earliest_by_type_dateless_first_witness:
  "date_key (ledger_release ''pre-release-alpha'' ''r4.0'' Absent ''1.0.0-alpha.1'') = Some [] \<and>
   (\<exists>m. find_earliest_by_type
          [ledger_release ''pre-release-alpha'' ''r4.1'' (Val ''2026-02-10'') ''1.0.0-alpha.2'',
           ledger_release ''pre-release-alpha'' ''r4.0'' Absent ''1.0.0-alpha.1'',
           ledger_release ''pre-release-alpha'' ''r4.2'' Absent ''1.0.0-alpha.3'']
          ''pre-release-alpha'' [''x''] = Inr m \<and>
        release_tag m = Some ''r4.0'' \<and> release_date m = None)"
proof -
  let ?cs =
    "[ledger_release ''pre-release-alpha'' ''r4.1'' (Val ''2026-02-10'') ''1.0.0-alpha.2'',
      ledger_release ''pre-release-alpha'' ''r4.0'' Absent ''1.0.0-alpha.1'',
      ledger_release ''pre-release-alpha'' ''r4.2'' Absent ''1.0.0-alpha.3'']"
  have cs: "?cs = filter (\<lambda>r. rel_release_type r = Some ''pre-release-alpha'') ?cs"
    by (simp add: ledger_release_def)
  have i: "1 < length ?cs" by simp
  have absent: "rel_release_date (?cs ! 1) = Absent" by (simp add: ledger_release_def)
  have first: "\<forall>j<1. rel_release_date (?cs ! j) \<noteq> Absent" by (simp add: ledger_release_def)
  have dates: "\<forall>r\<in>set ?cs. rel_release_date r \<noteq> Null \<and> rel_release_date r \<noteq> Val []"
    by (simp add: ledger_release_def)
  have apis: "\<forall>r\<in>set ?cs. rel_apis r \<noteq> Null" by (simp add: ledger_release_def)
  have "date_key (?cs ! 1) = Some [] \<and>
     (\<exists>m. find_earliest_by_type ?cs ''pre-release-alpha'' [''x''] = Inr m \<and>
          release_tag m = rel_release_tag (?cs ! 1) \<and> release_date m = None)"
    by (rule find_earliest_by_type_dateless_first [OF cs i absent first dates apis])
  then show ?thesis by (simp add: ledger_release_def)
qed

text \<open>
  Claim C10 as stated fails in two places. A candidate whose date is the empty string has
  the same key as a dateless one, so when it comes first in the input it is chosen, and the
  milestone's date is the empty string, not null. And a candidate set with a dateless
  release, a dated release and a release with an explicit null date is not sorted at all:
  the call raises \<^verbatim>\<open>TypeError\<close>.
\<close>

theorem find_earliest_by_type_dateless_counterexample:
  "find_earliest_by_type
      [ledger_release ''pre-release-alpha'' ''r4.1'' (Val []) ''1.0.0-alpha.2'',
       ledger_release ''pre-release-alpha'' ''r4.0'' Absent ''1.0.0-alpha.1'']
      ''pre-release-alpha'' []
     = Inr \<lparr>release_tag = Some ''r4.1'', release_date = Some [], milestone_apis = []\<rparr> \<and>
   find_earliest_by_type
      [ledger_release ''pre-release-alpha'' ''r4.1'' Null ''1.0.0-alpha.2'',
       ledger_release ''pre-release-alpha'' ''r4.0'' Absent ''1.0.0-alpha.1'',
       ledger_release ''pre-release-alpha'' ''r4.2'' (Val ''2026-02-10'') ''1.0.0-alpha.3'']
      ''pre-release-alpha'' []
     = Inl TypeError"
  by (simp add: find_earliest_by_type_def sort_by_release_date_def ledger_release_def date_key_def)

subsection \<open>Warning engine: the divergence check\<close>

lemma published_versions_step_apply:
  "published_versions_step a m name =
     (if ra_api_name a = Some name \<and> name \<noteq> [] then Some (base_version (ra_api_version a))
      else m name)"
  by (auto simp: published_versions_step_def split: option.splits)

lemma fold_published_versions_step:
  "fold published_versions_step release_apis m name =
     (if name = [] then m name
      else
        case List.find (\<lambda>a. ra_api_name a = Some name) (rev release_apis) of
          None \<Rightarrow> m name
        | Some a \<Rightarrow> Some (base_version (ra_api_version a)))"
proof (induction release_apis arbitrary: m)
  case Nil
  then show ?case by simp
next
  case (Cons a release_apis)
  have "fold published_versions_step (a # release_apis) m name =
      fold published_versions_step release_apis (published_versions_step a m) name"
    by simp
  also have "\<dots> =
     (if name = [] then published_versions_step a m name
      else
        case List.find (\<lambda>a. ra_api_name a = Some name) (rev release_apis) of
          None \<Rightarrow> published_versions_step a m name
        | Some a \<Rightarrow> Some (base_version (ra_api_version a)))"
    by (rule Cons.IH)
  also have "\<dots> =
     (if name = [] then m name
      else
        case List.find (\<lambda>a. ra_api_name a = Some name) (rev (a # release_apis)) of
          None \<Rightarrow> m name
        | Some a \<Rightarrow> Some (base_version (ra_api_version a)))"
    by (simp add: published_versions_step_apply find_append_case split: option.splits)
  finally show ?case .
qed

lemma published_versions_spec:
  assumes "get_default (rel_apis r) [] = Some release_apis"
  shows "published_versions release_apis name = spec_published_base r name"
proof -
  have "(case rel_apis r of Val release_apis \<Rightarrow> release_apis | _ \<Rightarrow> []) = release_apis"
    using assms by (cases "rel_apis r") auto
  then show ?thesis
    by (simp add: published_versions_def fold_published_versions_step spec_published_base_def)
qed

lemma first_divergence_length: "length (first_divergence versions tag planned) \<le> 1"
  by (induction planned) (auto split: option.splits)

lemma first_divergence_none:
  assumes "\<forall>api\<in>set planned. \<forall>b. versions (api_name api) = Some b \<longrightarrow>
             b = [] \<or> b = target_api_version api"
  shows "first_divergence versions tag planned = []"
  using assms by (induction planned) (auto split: option.splits)

lemma first_divergence_first:
  assumes "i < length planned"
      and "versions (api_name (planned ! i)) = Some b"
      and "b \<noteq> []" and "b \<noteq> target_api_version (planned ! i)"
      and "\<forall>j<i. \<forall>b'. versions (api_name (planned ! j)) = Some b' \<longrightarrow>
             b' = [] \<or> b' = target_api_version (planned ! j)"
  shows "first_divergence versions tag planned =
     [W001 (api_name (planned ! i)) (target_api_version (planned ! i)) tag b]"
  using assms
proof (induction planned arbitrary: i)
  case Nil
  then show ?case by simp
next
  case (Cons api planned)
  show ?case
  proof (cases i)
    case 0
    then show ?thesis using Cons.prems by auto
  next
    case (Suc k)
    have head: "\<forall>b'. versions (api_name api) = Some b' \<longrightarrow> b' = [] \<or> b' = target_api_version api"
      using Cons.prems(5) Suc by (metis nth_Cons_0 zero_less_Suc)
    have tail: "\<forall>j<k. \<forall>b'. versions (api_name (planned ! j)) = Some b' \<longrightarrow>
             b' = [] \<or> b' = target_api_version (planned ! j)"
      using Cons.prems(5) Suc by (metis Suc_less_eq nth_Cons_Suc)
    have "first_divergence versions tag planned =
        [W001 (api_name (planned ! k)) (target_api_version (planned ! k)) tag b]"
      using Cons.IH [of k] Cons.prems(1-4) Suc tail by simp
    moreover have "first_divergence versions tag (api # planned) =
        first_divergence versions tag planned"
      using head by (auto split: option.splits)
    ultimately show ?thesis using Suc by simp
  qed
qed

lemma sublist_W001:
  "sublist v (message (W001 n v tag b))" "sublist b (message (W001 n v tag b))"
proof -
  have m: "message (W001 n v tag b) =
      (''Plan targets '' @ n @ '' '') @ v @ ('' but '' @ tag @ '' published '' @ b)"
    by (simp add: W001_def)
  show "sublist v (message (W001 n v tag b))"
    unfolding m by (rule sublist_appendI)
  have m': "message (W001 n v tag b) =
      (''Plan targets '' @ n @ '' '' @ v @ '' but '' @ tag @ '' published '') @ b @ []"
    by (simp add: W001_def)
  show "sublist b (message (W001 n v tag b))"
    unfolding m' by (rule sublist_appendI)
qed

lemma check_published_plan_diverged_fires:
  assumes "check_published_plan_diverged entry rels = Inr ws" and "ws \<noteq> []"
  shows "state entry = PUBLISHED \<and> target_release_tag entry \<noteq> None \<and>
     target_release_tag entry \<noteq> Some [] \<and> apis entry \<noteq> [] \<and>
     (\<exists>rel\<in>set rels. rel_release_tag rel = target_release_tag entry)"
  using assms
  by (auto simp: check_published_plan_diverged_def find_Some_iff
      split: if_splits option.splits)

lemma check_published_plan_diverged_length:
  assumes "check_published_plan_diverged entry rels = Inr ws"
  shows "length ws \<le> 1"
  using assms first_divergence_length
  by (auto simp: check_published_plan_diverged_def split: if_splits option.splits)

lemma check_published_plan_diverged_found:
  assumes "state entry = PUBLISHED" and "target_release_tag entry = Some tag" and "tag \<noteq> []"
      and "List.find (\<lambda>rel. rel_release_tag rel = Some tag) rels = Some published"
      and "get_default (rel_apis published) [] = Some release_apis"
  shows "check_published_plan_diverged entry rels =
     Inr (first_divergence (published_versions release_apis) tag (apis entry))"
  using assms by (cases "apis entry") (simp_all add: check_published_plan_diverged_def)

lemma check_published_plan_diverged_null:
  assumes "state entry = PUBLISHED" and "target_release_tag entry = Some tag" and "tag \<noteq> []"
      and "List.find (\<lambda>rel. rel_release_tag rel = Some tag) rels = Some published"
      and "rel_apis published = Null" and "apis entry \<noteq> []"
  shows "check_published_plan_diverged entry rels = Inl TypeError"
  using assms by (simp add: check_published_plan_diverged_def)

lemma spec_diverged_iff:
  "spec_diverged r api \<longleftrightarrow>
     (\<exists>b. spec_published_base r (api_name api) = Some b \<and> b \<noteq> [] \<and> b \<noteq> target_api_version api)"
  by (auto simp: spec_diverged_def split: option.splits)

lemma first_divergence_SomeD:
  assumes "first_divergence versions tag planned = [w]"
  shows "\<exists>i<length planned. \<exists>b.
           versions (api_name (planned ! i)) = Some b \<and> b \<noteq> [] \<and>
           b \<noteq> target_api_version (planned ! i) \<and>
           (\<forall>j<i. \<forall>b'. versions (api_name (planned ! j)) = Some b' \<longrightarrow>
               b' = [] \<or> b' = target_api_version (planned ! j)) \<and>
           w = W001 (api_name (planned ! i)) (target_api_version (planned ! i)) tag b"
  using assms
proof (induction planned)
  case Nil
  then show ?case by simp
next
  case (Cons api planned)
  show ?case
  proof (cases "\<exists>b. versions (api_name api) = Some b \<and> b \<noteq> [] \<and> b \<noteq> target_api_version api")
    case True
    then obtain b where b: "versions (api_name api) = Some b" "b \<noteq> []"
        "b \<noteq> target_api_version api"
      by blast
    then have "w = W001 (api_name api) (target_api_version api) tag b"
      using Cons.prems by simp
    with b show ?thesis
      by (intro exI [of _ 0]) simp
  next
    case False
    then have skip: "first_divergence versions tag (api # planned) =
        first_divergence versions tag planned"
      by (auto split: option.splits)
    then obtain i b where i: "i < length planned"
        "versions (api_name (planned ! i)) = Some b" "b \<noteq> []"
        "b \<noteq> target_api_version (planned ! i)"
        "\<forall>j<i. \<forall>b'. versions (api_name (planned ! j)) = Some b' \<longrightarrow>
               b' = [] \<or> b' = target_api_version (planned ! j)"
        "w = W001 (api_name (planned ! i)) (target_api_version (planned ! i)) tag b"
      using Cons.IH Cons.prems by auto
    have earlier: "\<forall>j<Suc i. \<forall>b'. versions (api_name ((api # planned) ! j)) = Some b' \<longrightarrow>
               b' = [] \<or> b' = target_api_version ((api # planned) ! j)"
    proof (intro allI impI)
      fix j b'
      assume j: "j < Suc i" and v: "versions (api_name ((api # planned) ! j)) = Some b'"
      show "b' = [] \<or> b' = target_api_version ((api # planned) ! j)"
      proof (cases j)
        case 0
        then show ?thesis using False v by auto
      next
        case (Suc k)
        then show ?thesis using i(5) j v by auto
      qed
    qed
    show ?thesis
      using i(1-4,6) earlier by (intro exI [of _ "Suc i"]) auto
  qed
qed

lemma check_published_plan_diverged_which:
  assumes "check_published_plan_diverged entry rels = Inr [w]"
  shows "\<exists>tag published i b.
     target_release_tag entry = Some tag \<and>
     List.find (\<lambda>rel. rel_release_tag rel = Some tag) rels = Some published \<and>
     i < length (apis entry) \<and>
     spec_diverged published (apis entry ! i) \<and>
     (\<forall>j<i. \<not> spec_diverged published (apis entry ! j)) \<and>
     spec_published_base published (api_name (apis entry ! i)) = Some b \<and>
     w = W001 (api_name (apis entry ! i)) (target_api_version (apis entry ! i)) tag b"
proof -
  from assms obtain tag published release_apis where
      tag: "target_release_tag entry = Some tag"
      and found: "List.find (\<lambda>rel. rel_release_tag rel = Some tag) rels = Some published"
      and ra: "get_default (rel_apis published) [] = Some release_apis"
      and fd: "first_divergence (published_versions release_apis) tag (apis entry) = [w]"
    by (auto simp: check_published_plan_diverged_def split: if_splits option.splits)
  have pv: "published_versions release_apis name = spec_published_base published name" for name
    using ra by (rule published_versions_spec)
  from first_divergence_SomeD [OF fd]
  obtain i b where i: "i < length (apis entry)"
      "published_versions release_apis (api_name (apis entry ! i)) = Some b" "b \<noteq> []"
      "b \<noteq> target_api_version (apis entry ! i)"
      "\<forall>j<i. \<forall>b'. published_versions release_apis (api_name (apis entry ! j)) = Some b' \<longrightarrow>
               b' = [] \<or> b' = target_api_version (apis entry ! j)"
      "w = W001 (api_name (apis entry ! i)) (target_api_version (apis entry ! i)) tag b"
    by blast
  have "spec_diverged published (apis entry ! i)"
    using i(2-4) by (auto simp: spec_diverged_iff pv)
  moreover have "\<forall>j<i. \<not> spec_diverged published (apis entry ! j)"
    using i(5) by (auto simp: spec_diverged_iff pv)
  moreover have "spec_published_base published (api_name (apis entry ! i)) = Some b"
    using i(2) by (simp add: pv)
  ultimately show ?thesis
    using tag found i(1,6) by blast
qed

text \<open>
  Claim C6, as the code has it. The divergence check produces a warning only when the
  entry's state is \<open>PUBLISHED\<close>, its target tag is neither null nor empty, it plans at least
  one API, and some release has the target tag; and it never produces more than one.

  When it produces a warning, the warning is for the first planned API, in the order of
  the entry's list, that has diverged from the first release with the target tag: one
  whose published base version is there, is \<^emph>\<open>not empty\<close>, and differs from its target
  version. The warning has the code \<^verbatim>\<open>W001\<close> and its message contains the target version
  and the published base version.

  Conversely, when the state is \<open>PUBLISHED\<close> and \<open>published\<close> is the first release with the
  target tag, with a list of APIs or none (an explicit null \<^verbatim>\<open>apis\<close> is outside the
  statement): if no planned API has diverged there is no warning, and otherwise there is
  exactly one, for the first planned API that has diverged.
\<close>

theorem check_published_plan_diverged_first_mismatch:
  "(\<forall>ws. check_published_plan_diverged entry rels = Inr ws \<and> ws \<noteq> [] \<longrightarrow>
      state entry = PUBLISHED \<and> target_release_tag entry \<noteq> None \<and>
      target_release_tag entry \<noteq> Some [] \<and> apis entry \<noteq> [] \<and>
      (\<exists>rel\<in>set rels. rel_release_tag rel = target_release_tag entry)) \<and>
   (\<forall>ws. check_published_plan_diverged entry rels = Inr ws \<longrightarrow> length ws \<le> 1) \<and>
   (\<forall>w. check_published_plan_diverged entry rels = Inr [w] \<longrightarrow>
      (\<exists>tag published i b.
         target_release_tag entry = Some tag \<and>
         List.find (\<lambda>rel. rel_release_tag rel = Some tag) rels = Some published \<and>
         i < length (apis entry) \<and>
         spec_diverged published (apis entry ! i) \<and>
         (\<forall>j<i. \<not> spec_diverged published (apis entry ! j)) \<and>
         spec_published_base published (api_name (apis entry ! i)) = Some b \<and>
         w = W001 (api_name (apis entry ! i)) (target_api_version (apis entry ! i)) tag b)) \<and>
   (\<forall>tag published.
      state entry = PUBLISHED \<and> target_release_tag entry = Some tag \<and> tag \<noteq> [] \<and>
      List.find (\<lambda>rel. rel_release_tag rel = Some tag) rels = Some published \<longrightarrow>
        (rel_apis published \<noteq> Null \<longrightarrow>
           ((\<forall>api\<in>set (apis entry). \<not> spec_diverged published api) \<longrightarrow>
              check_published_plan_diverged entry rels = Inr []) \<and>
           (\<forall>i<length (apis entry).
              spec_diverged published (apis entry ! i) \<and>
              (\<forall>j<i. \<not> spec_diverged published (apis entry ! j)) \<longrightarrow>
              (\<exists>b. spec_published_base published (api_name (apis entry ! i)) = Some b \<and>
                   check_published_plan_diverged entry rels =
                     Inr [W001 (api_name (apis entry ! i)) (target_api_version (apis entry ! i))
                            tag b])))) \<and>
   (\<forall>n v tag b. code (W001 n v tag b) = ''W001'' \<and>
      sublist v (message (W001 n v tag b)) \<and> sublist b (message (W001 n v tag b)))"
proof -
  have fires: "\<forall>ws. check_published_plan_diverged entry rels = Inr ws \<and> ws \<noteq> [] \<longrightarrow>
      state entry = PUBLISHED \<and> target_release_tag entry \<noteq> None \<and>
      target_release_tag entry \<noteq> Some [] \<and> apis entry \<noteq> [] \<and>
      (\<exists>rel\<in>set rels. rel_release_tag rel = target_release_tag entry)"
    using check_published_plan_diverged_fires by blast
  have once: "\<forall>ws. check_published_plan_diverged entry rels = Inr ws \<longrightarrow> length ws \<le> 1"
    using check_published_plan_diverged_length by blast
  have fired: "\<forall>w. check_published_plan_diverged entry rels = Inr [w] \<longrightarrow>
      (\<exists>tag published i b.
         target_release_tag entry = Some tag \<and>
         List.find (\<lambda>rel. rel_release_tag rel = Some tag) rels = Some published \<and>
         i < length (apis entry) \<and>
         spec_diverged published (apis entry ! i) \<and>
         (\<forall>j<i. \<not> spec_diverged published (apis entry ! j)) \<and>
         spec_published_base published (api_name (apis entry ! i)) = Some b \<and>
         w = W001 (api_name (apis entry ! i)) (target_api_version (apis entry ! i)) tag b)"
    using check_published_plan_diverged_which by blast
  have which: "(rel_apis published \<noteq> Null \<longrightarrow>
           ((\<forall>api\<in>set (apis entry). \<not> spec_diverged published api) \<longrightarrow>
              check_published_plan_diverged entry rels = Inr []) \<and>
           (\<forall>i<length (apis entry).
              spec_diverged published (apis entry ! i) \<and>
              (\<forall>j<i. \<not> spec_diverged published (apis entry ! j)) \<longrightarrow>
              (\<exists>b. spec_published_base published (api_name (apis entry ! i)) = Some b \<and>
                   check_published_plan_diverged entry rels =
                     Inr [W001 (api_name (apis entry ! i)) (target_api_version (apis entry ! i))
                            tag b])))"
    if pre: "state entry = PUBLISHED \<and> target_release_tag entry = Some tag \<and> tag \<noteq> [] \<and>
      List.find (\<lambda>rel. rel_release_tag rel = Some tag) rels = Some published"
    for tag published
  proof (intro conjI impI allI)
    assume nn: "rel_apis published \<noteq> Null"
    assume none: "\<forall>api\<in>set (apis entry). \<not> spec_diverged published api"
    obtain release_apis where ra: "get_default (rel_apis published) [] = Some release_apis"
      using nn by (cases "rel_apis published") auto
    have pv: "published_versions release_apis name = spec_published_base published name" for name
      using ra by (rule published_versions_spec)
    have "check_published_plan_diverged entry rels =
       Inr (first_divergence (published_versions release_apis) tag (apis entry))"
      using pre ra check_published_plan_diverged_found by blast
    moreover have "first_divergence (published_versions release_apis) tag (apis entry) = []"
      using none by (intro first_divergence_none) (auto simp: pv spec_diverged_iff)
    ultimately show "check_published_plan_diverged entry rels = Inr []" by simp
  next
    fix i
    assume nn: "rel_apis published \<noteq> Null"
    assume i: "i < length (apis entry)"
    assume div: "spec_diverged published (apis entry ! i) \<and>
              (\<forall>j<i. \<not> spec_diverged published (apis entry ! j))"
    obtain release_apis where ra: "get_default (rel_apis published) [] = Some release_apis"
      using nn by (cases "rel_apis published") auto
    have pv: "published_versions release_apis name = spec_published_base published name" for name
      using ra by (rule published_versions_spec)
    have found: "check_published_plan_diverged entry rels =
       Inr (first_divergence (published_versions release_apis) tag (apis entry))"
      using pre ra check_published_plan_diverged_found by blast
    obtain b where b: "spec_published_base published (api_name (apis entry ! i)) = Some b"
        "b \<noteq> []" "b \<noteq> target_api_version (apis entry ! i)"
      using div spec_diverged_iff by blast
    have earlier: "\<forall>j<i. \<forall>b'. published_versions release_apis (api_name (apis entry ! j)) = Some b' \<longrightarrow>
               b' = [] \<or> b' = target_api_version (apis entry ! j)"
      using div by (auto simp: pv spec_diverged_iff)
    have "first_divergence (published_versions release_apis) tag (apis entry) =
       [W001 (api_name (apis entry ! i)) (target_api_version (apis entry ! i)) tag b]"
      using i b earlier by (intro first_divergence_first) (simp_all add: pv)
    with found b(1)
    show "\<exists>b. spec_published_base published (api_name (apis entry ! i)) = Some b \<and>
                   check_published_plan_diverged entry rels =
                     Inr [W001 (api_name (apis entry ! i)) (target_api_version (apis entry ! i))
                            tag b]"
      by simp
  qed
  have msg: "\<forall>n v tag b. code (W001 n v tag b) = ''W001'' \<and>
      sublist v (message (W001 n v tag b)) \<and> sublist b (message (W001 n v tag b))"
    using sublist_W001 by (simp add: W001_def)
  have which': "\<forall>tag published.
      state entry = PUBLISHED \<and> target_release_tag entry = Some tag \<and> tag \<noteq> [] \<and>
      List.find (\<lambda>rel. rel_release_tag rel = Some tag) rels = Some published \<longrightarrow>
        (rel_apis published \<noteq> Null \<longrightarrow>
           ((\<forall>api\<in>set (apis entry). \<not> spec_diverged published api) \<longrightarrow>
              check_published_plan_diverged entry rels = Inr []) \<and>
           (\<forall>i<length (apis entry).
              spec_diverged published (apis entry ! i) \<and>
              (\<forall>j<i. \<not> spec_diverged published (apis entry ! j)) \<longrightarrow>
              (\<exists>b. spec_published_base published (api_name (apis entry ! i)) = Some b \<and>
                   check_published_plan_diverged entry rels =
                     Inr [W001 (api_name (apis entry ! i)) (target_api_version (apis entry ! i))
                            tag b])))"
    by (intro allI, rule impI) (rule which)
  show ?thesis
    using fires once fired which' msg by (intro conjI)
qed

text \<open>
  The theorem on the two entries of the specification: plan \<^verbatim>\<open>2.0.0\<close> against published
  \<^verbatim>\<open>1.1.0\<close> gives one \<^verbatim>\<open>W001\<close> warning that mentions both versions; plan \<^verbatim>\<open>1.1.0\<close> against
  published \<^verbatim>\<open>1.1.0-rc.2\<close> gives none. Where the warning is produced, a release has the
  target tag and the warning is the one of a planned API that has diverged.
\<close>

theorem check_published_plan_diverged_first_mismatch_witness:
  "check_published_plan_diverged (published_entry [planned_api ''x'' ''2.0.0''])
      [tagged_release ''r4.1'' [(''x'', ''1.1.0'')]]
     = Inr [W001 ''x'' ''2.0.0'' ''r4.1'' ''1.1.0''] \<and>
   code (W001 ''x'' ''2.0.0'' ''r4.1'' ''1.1.0'') = ''W001'' \<and>
   sublist ''2.0.0'' (message (W001 ''x'' ''2.0.0'' ''r4.1'' ''1.1.0'')) \<and>
   sublist ''1.1.0'' (message (W001 ''x'' ''2.0.0'' ''r4.1'' ''1.1.0'')) \<and>
   check_published_plan_diverged (published_entry [planned_api ''x'' ''1.1.0''])
      [tagged_release ''r4.1'' [(''x'', ''1.1.0-rc.2'')]]
     = Inr [] \<and>
   (\<exists>rel\<in>set [tagged_release ''r4.1'' [(''x'', ''1.1.0'')]].
      rel_release_tag rel = target_release_tag (published_entry [planned_api ''x'' ''2.0.0''])) \<and>
   (\<exists>tag published i b.
      target_release_tag (published_entry [planned_api ''x'' ''2.0.0'']) = Some tag \<and>
      List.find (\<lambda>rel. rel_release_tag rel = Some tag) [tagged_release ''r4.1'' [(''x'', ''1.1.0'')]]
        = Some published \<and>
      i < length (apis (published_entry [planned_api ''x'' ''2.0.0''])) \<and>
      spec_diverged published (apis (published_entry [planned_api ''x'' ''2.0.0'']) ! i) \<and>
      spec_published_base published
         (api_name (apis (published_entry [planned_api ''x'' ''2.0.0'']) ! i)) = Some b \<and>
      W001 ''x'' ''2.0.0'' ''r4.1'' ''1.1.0'' =
        W001 (api_name (apis (published_entry [planned_api ''x'' ''2.0.0'']) ! i))
          (target_api_version (apis (published_entry [planned_api ''x'' ''2.0.0'']) ! i)) tag b)"
proof -
  let ?e = "published_entry [planned_api ''x'' ''2.0.0'']"
  let ?r = "tagged_release ''r4.1'' [(''x'', ''1.1.0'')]"
  let ?e' = "published_entry [planned_api ''x'' ''1.1.0'']"
  let ?r' = "tagged_release ''r4.1'' [(''x'', ''1.1.0-rc.2'')]"
  have pre: "state ?e = PUBLISHED \<and> target_release_tag ?e = Some ''r4.1'' \<and> ''r4.1'' \<noteq> [] \<and>
      List.find (\<lambda>rel. rel_release_tag rel = Some ''r4.1'') [?r] = Some ?r"
    by (simp add: published_entry_def sample_entry_def tagged_release_def)
  have nn: "rel_apis ?r \<noteq> Null" by (simp add: tagged_release_def)
  have base: "spec_published_base ?r ''x'' = Some ''1.1.0''"
    by (simp add: spec_published_base_def tagged_release_def base_version_def)
  have i: "0 < length (apis ?e)" by (simp add: published_entry_def)
  have div: "spec_diverged ?r (apis ?e ! 0) \<and> (\<forall>j<0. \<not> spec_diverged ?r (apis ?e ! j))"
    using base by (simp add: spec_diverged_def published_entry_def planned_api_def)
  note t = check_published_plan_diverged_first_mismatch [of ?e "[?r]"]
  have "\<exists>b. spec_published_base ?r (api_name (apis ?e ! 0)) = Some b \<and>
       check_published_plan_diverged ?e [?r] =
         Inr [W001 (api_name (apis ?e ! 0)) (target_api_version (apis ?e ! 0)) ''r4.1'' b]"
    using t [THEN conjunct2, THEN conjunct2, THEN conjunct2, THEN conjunct1,
        THEN spec, THEN spec, THEN mp,
        OF pre, THEN mp, OF nn, THEN conjunct2, THEN spec, THEN mp, OF i,
        THEN mp, OF div] .
  then have 1: "check_published_plan_diverged ?e [?r] = Inr [W001 ''x'' ''2.0.0'' ''r4.1'' ''1.1.0'']"
    using base by (auto simp: published_entry_def planned_api_def)
  have 2: "code (W001 ''x'' ''2.0.0'' ''r4.1'' ''1.1.0'') = ''W001'' \<and>
      sublist ''2.0.0'' (message (W001 ''x'' ''2.0.0'' ''r4.1'' ''1.1.0'')) \<and>
      sublist ''1.1.0'' (message (W001 ''x'' ''2.0.0'' ''r4.1'' ''1.1.0''))"
    using t [THEN conjunct2, THEN conjunct2, THEN conjunct2, THEN conjunct2,
        THEN spec, THEN spec, THEN spec, THEN spec,
        of "''x''" "''2.0.0''" "''r4.1''" "''1.1.0''"] .
  have pre': "state ?e' = PUBLISHED \<and> target_release_tag ?e' = Some ''r4.1'' \<and> ''r4.1'' \<noteq> [] \<and>
      List.find (\<lambda>rel. rel_release_tag rel = Some ''r4.1'') [?r'] = Some ?r'"
    by (simp add: published_entry_def sample_entry_def tagged_release_def)
  have nn': "rel_apis ?r' \<noteq> Null" by (simp add: tagged_release_def)
  have none: "\<forall>api\<in>set (apis ?e'). \<not> spec_diverged ?r' api"
    by (simp add: spec_diverged_def spec_published_base_def tagged_release_def base_version_def
        published_entry_def planned_api_def)
  have 3: "check_published_plan_diverged ?e' [?r'] = Inr []"
    using check_published_plan_diverged_first_mismatch [of ?e' "[?r']",
        THEN conjunct2, THEN conjunct2, THEN conjunct2, THEN conjunct1,
        THEN spec, THEN spec, THEN mp,
        OF pre', THEN mp, OF nn', THEN conjunct1, THEN mp, OF none] .
  have fired: "check_published_plan_diverged ?e [?r] = Inr [W001 ''x'' ''2.0.0'' ''r4.1'' ''1.1.0''] \<and>
      [W001 ''x'' ''2.0.0'' ''r4.1'' ''1.1.0''] \<noteq> []"
    using 1 by simp
  have 4: "\<exists>rel\<in>set [?r]. rel_release_tag rel = target_release_tag ?e"
    using t [THEN conjunct1, THEN spec, THEN mp, OF fired] by blast
  have "\<exists>tag published i b.
      target_release_tag ?e = Some tag \<and>
      List.find (\<lambda>rel. rel_release_tag rel = Some tag) [?r] = Some published \<and>
      i < length (apis ?e) \<and>
      spec_diverged published (apis ?e ! i) \<and>
      (\<forall>j<i. \<not> spec_diverged published (apis ?e ! j)) \<and>
      spec_published_base published (api_name (apis ?e ! i)) = Some b \<and>
      W001 ''x'' ''2.0.0'' ''r4.1'' ''1.1.0'' =
        W001 (api_name (apis ?e ! i)) (target_api_version (apis ?e ! i)) tag b"
    using t [THEN conjunct2, THEN conjunct2, THEN conjunct1, THEN spec, THEN mp, OF 1] .
  then have 5: "\<exists>tag published i b.
      target_release_tag ?e = Some tag \<and>
      List.find (\<lambda>rel. rel_release_tag rel = Some tag) [?r] = Some published \<and>
      i < length (apis ?e) \<and>
      spec_diverged published (apis ?e ! i) \<and>
      spec_published_base published (api_name (apis ?e ! i)) = Some b \<and>
      W001 ''x'' ''2.0.0'' ''r4.1'' ''1.1.0'' =
        W001 (api_name (apis ?e ! i)) (target_api_version (apis ?e ! i)) tag b"
    by blast
  show ?thesis using 1 2 3 4 5 by (intro conjI) simp_all
qed

text \<open>
  Claim C6 as stated fails when a published base version is the empty string. The release
  records the empty version for API \<^verbatim>\<open>a\<close>, so the base version of \<^verbatim>\<open>a\<close> is the empty
  string: it is not null and it differs from the target \<^verbatim>\<open>1.0.0\<close>. Yet the one warning is
  for \<^verbatim>\<open>b\<close>, the second API of the entry, not for \<^verbatim>\<open>a\<close>, the first.
\<close>

theorem check_published_plan_diverged_empty_base_counterexample:
  "published_versions
      [\<lparr>ra_api_name = Some ''a'', ra_api_version = Some []\<rparr>,
       \<lparr>ra_api_name = Some ''b'', ra_api_version = Some ''2.0.0''\<rparr>] ''a'' = Some [] \<and>
   [] \<noteq> target_api_version (planned_api ''a'' ''1.0.0'') \<and>
   check_published_plan_diverged
      (published_entry [planned_api ''a'' ''1.0.0'', planned_api ''b'' ''1.0.0''])
      [tagged_release ''r4.1'' [(''a'', []), (''b'', ''2.0.0'')]]
     = Inr [W001 ''b'' ''1.0.0'' ''r4.1'' ''2.0.0'']"
  by (simp add: check_published_plan_diverged_def published_entry_def sample_entry_def
      tagged_release_def planned_api_def published_versions_def published_versions_step_def
      base_version_def)

end
